theory Spec2Isabelle
  imports Complex_Main "HOL-Library.Word" "HOL-Library.AList" "HOL-Library.Multiset"
begin

unbundle bit_operations_syntax

section \<open>Overlay bitmap decoder\<close>

text \<open>
  \<^verbatim>\<open>unpackOverlayBits(packed: Uint8Array, numPixels: number): Uint8Array\<close> of
  the loader module \<^verbatim>\<open>lib/dicom\<close> (it follows the terminology module in
  \<^verbatim>\<open>src/lib/terminology.ts\<close>). A \<^verbatim>\<open>Uint8Array\<close> is a list of 8-bit words;
  \<^verbatim>\<open>new Uint8Array(numPixels)\<close> is zero-filled. The \<^verbatim>\<open>for\<close> loop over \<open>i\<close> is the recursive function
  \<open>unpackLoop\<close>, which carries the loop counter and the array written so far.
\<close>

type_synonym u8 = "8 word"

function unpackLoop :: "u8 list \<Rightarrow> nat \<Rightarrow> nat \<Rightarrow> u8 list \<Rightarrow> u8 list" where
  "unpackLoop packed numPixels i unpacked =
     (if i < numPixels then
        (let byteIndex = i div 8;
             bitIndex = i mod 8
         in unpackLoop packed numPixels (i + 1)
              (if byteIndex < length packed
               then unpacked[i := (drop_bit bitIndex (packed ! byteIndex)) AND 1]
               else unpacked))
      else unpacked)"
  by pat_completeness auto
termination
  by (relation "measure (\<lambda>(packed, numPixels, i, unpacked). numPixels - i)") auto

definition unpackOverlayBits :: "u8 list \<Rightarrow> nat \<Rightarrow> u8 list" where
  "unpackOverlayBits packed numPixels = unpackLoop packed numPixels 0 (replicate numPixels 0)"

text \<open>
  The inverse operation is not part of the program. The specification describes it in
  words: bit \<open>i mod 8\<close> of output byte \<open>i div 8\<close> is set from unpacked byte \<open>i\<close>.
  \<open>repackOverlayBits_spec L unpacked\<close> follows these words and produces \<open>L\<close> bytes; a
  bit with no unpacked byte behind it stays clear.
\<close>

definition repackByte_spec :: "u8 list \<Rightarrow> nat \<Rightarrow> u8" where
  "repackByte_spec unpacked j =
     fold (\<lambda>b acc. if 8 * j + b < length unpacked \<and> unpacked ! (8 * j + b) \<noteq> 0
                     then set_bit b acc else acc) [0..<8] 0"

definition repackOverlayBits_spec :: "nat \<Rightarrow> u8 list \<Rightarrow> u8 list" where
  "repackOverlayBits_spec L unpacked = map (repackByte_spec unpacked) [0..<L]"

section \<open>The dataset interface of the binary DICOM reader\<close>

text \<open>
  The decoders consume the external reader (\<^verbatim>\<open>dicom-parser\<close>) only through
  \<^verbatim>\<open>string(tag)\<close>, \<^verbatim>\<open>intString(tag)\<close>, \<^verbatim>\<open>uint16(tag)\<close>, \<^verbatim>\<open>floatString(tag)\<close>,
  \<^verbatim>\<open>float(tag, index)\<close>, \<^verbatim>\<open>elements[tag]\<close> (with \<^verbatim>\<open>.items\<close>, \<^verbatim>\<open>.length\<close>,
  \<^verbatim>\<open>.dataOffset\<close>) and \<^verbatim>\<open>byteArray\<close>. A dataset is the table of answers to the
  string and number queries, its elements and its byte array; \<open>None\<close> is
  \<^verbatim>\<open>undefined\<close>. An item of a sequence may lack its nested dataset.

  \<^verbatim>\<open>intString\<close> is \<^verbatim>\<open>parseInt\<close> of the string value: an integer, or \<^verbatim>\<open>NaN\<close>
  when the value is blank or malformed. The type \<open>jsnum\<close> keeps that case, since
  \<^verbatim>\<open>??\<close> does not replace \<^verbatim>\<open>NaN\<close> and the sort comparators subtract these
  numbers. Numbers that are only stored or rendered (\<^verbatim>\<open>floatString\<close>, decoded binary
  floats) are idealised as reals.
\<close>

type_synonym tag = string

datatype jsnum = NaN | Num int

datatype dataSet = DataSet
    (elements: "(tag \<times> element) list")
    (stringTab: "(tag \<times> string) list")
    (intStringTab: "(tag \<times> jsnum) list")
    (uint16Tab: "(tag \<times> 16 word) list")
    (floatStringTab: "(tag \<times> real) list")
    (byteArray: "u8 list")
and element = Element
    (elLength: nat)
    (dataOffset: nat)
    (items: "dataSet option list option")

definition elementAt :: "dataSet \<Rightarrow> tag \<Rightarrow> element option" where
  "elementAt ds t = map_of (elements ds) t"

definition dsString :: "dataSet \<Rightarrow> tag \<Rightarrow> string option" where
  "dsString ds t = map_of (stringTab ds) t"

definition dsIntString :: "dataSet \<Rightarrow> tag \<Rightarrow> jsnum option" where
  "dsIntString ds t = map_of (intStringTab ds) t"

definition dsUint16 :: "dataSet \<Rightarrow> tag \<Rightarrow> 16 word option" where
  "dsUint16 ds t = map_of (uint16Tab ds) t"

definition dsFloatString :: "dataSet \<Rightarrow> tag \<Rightarrow> real option" where
  "dsFloatString ds t = map_of (floatStringTab ds) t"

text \<open>The optional chain \<^verbatim>\<open>seq?.items?.[0]?.dataSet\<close>.\<close>

fun firstItemDataSet :: "element option \<Rightarrow> dataSet option" where
  "firstItemDataSet None = None"
| "firstItemDataSet (Some el) =
     (case items el of
        None \<Rightarrow> None
      | Some [] \<Rightarrow> None
      | Some (it # _) \<Rightarrow> it)"

text \<open>
  What reading and parsing one file path gives: \<^verbatim>\<open>readFile\<close> rejects, or it
  returns a buffer of \<open>byteLength\<close> bytes on which \<^verbatim>\<open>parseDicom\<close> either throws or
  returns a dataset. A path reads the same every time during one load. The host
  also supplies what the JavaScript engine and the reader compute:
  \<^item> \<^verbatim>\<open>Number(s)\<close> (\<open>None\<close> is \<^verbatim>\<open>NaN\<close>) and \<^verbatim>\<open>n.toString()\<close>;
  \<^item> the value of the four bytes of a binary 32-bit float;
  \<^item> the order in which \<^verbatim>\<open>Array.prototype.sort\<close> leaves an array whose comparator
    returns \<^verbatim>\<open>NaN\<close>: the language leaves that order to the engine. The engine is
    given the keys and answers with the indices of the elements in their new order.
\<close>

datatype fileContent =
    Unreadable
  | Unparsable nat
  | Parsed nat dataSet

record host =
  readFile :: "string \<Rightarrow> fileContent"
  toNumber :: "string \<Rightarrow> real option"
  numberToString :: "real \<Rightarrow> string"
  decodeFloat32 :: "u8 list \<Rightarrow> real"
  engineOrder :: "jsnum list \<Rightarrow> nat list"

text \<open>
  A call that can throw either throws or returns a value.
\<close>

datatype 'a completion = Throws | Returns 'a

text \<open>
  \<^verbatim>\<open>float(tag, index)\<close> of the reader: \<^verbatim>\<open>undefined\<close> when the element is absent or
  empty; otherwise the 32-bit float at byte \<open>dataOffset + 4 * index\<close> of the byte
  array, whether or not that lies inside the element, and an exception when the four
  bytes reach past the end of the byte array.
\<close>

definition dsFloat :: "host \<Rightarrow> dataSet \<Rightarrow> tag \<Rightarrow> nat \<Rightarrow> real option completion" where
  "dsFloat h ds t i =
     (case elementAt ds t of
        None \<Rightarrow> Returns None
      | Some el \<Rightarrow>
          if elLength el = 0 then Returns None
          else
            (let position = dataOffset el + i * 4
             in if position + 4 > length (byteArray ds) then Throws
                else Returns (Some (decodeFloat32 h (take 4 (drop position (byteArray ds)))))))"

subsection \<open>JavaScript idioms\<close>

text \<open>\<^verbatim>\<open>!s\<close> on an optional string is true for \<^verbatim>\<open>undefined\<close> and for the empty string.\<close>

definition truthy :: "string option \<Rightarrow> bool" where
  "truthy s = (case s of None \<Rightarrow> False | Some v \<Rightarrow> v \<noteq> [])"

text \<open>\<^verbatim>\<open>s ?? d\<close> and \<^verbatim>\<open>s || d\<close>.\<close>

definition orDefault :: "'a option \<Rightarrow> 'a \<Rightarrow> 'a" where
  "orDefault s d = (case s of None \<Rightarrow> d | Some v \<Rightarrow> v)"

definition orElse :: "string \<Rightarrow> string \<Rightarrow> string" where
  "orElse s d = (if s = [] then d else s)"

text \<open>\<^verbatim>\<open>s.split(sep)\<close> for a one-character separator: always at least one part.\<close>

fun splitOn :: "char \<Rightarrow> string \<Rightarrow> string list" where
  "splitOn sep [] = [[]]"
| "splitOn sep (c # cs) =
     (if c = sep then [] # splitOn sep cs
      else (case splitOn sep cs of
              [] \<Rightarrow> [[c]]
            | p # ps \<Rightarrow> (c # p) # ps))"

definition backslash :: char where
  "backslash = CHR 0x5C"

text \<open>
  \<^verbatim>\<open>str.split('\\').map(Number)\<close> followed by the test
  \<^verbatim>\<open>parts.length >= 2 && !parts.some(isNaN)\<close>: the numbers when the test passes.
\<close>

definition numberParts :: "host \<Rightarrow> string \<Rightarrow> real list option" where
  "numberParts h str =
     (let parts = map (toNumber h) (splitOn backslash str)
      in if length parts \<ge> 2 \<and> None \<notin> set parts then Some (map the parts) else None)"

text \<open>
  \<^verbatim>\<open>s.trim()\<close>. The reader builds a string with one character per byte, so of the
  white space that \<^verbatim>\<open>trim\<close> strips only the codes below 256 can occur.
\<close>

definition isSpace :: "char \<Rightarrow> bool" where
  "isSpace c =
     (c \<in> set [CHR '' '', CHR 0x09, CHR 0x0A, CHR 0x0B, CHR 0x0C, CHR 0x0D, CHR 0xA0])"

definition trim :: "string \<Rightarrow> string" where
  "trim s = rev (dropWhile isSpace (rev (dropWhile isSpace s)))"

subsection \<open>\<^verbatim>\<open>dicom-utils\<close>\<close>

definition formatDicomDate :: "string option \<Rightarrow> string" where
  "formatDicomDate dateStr =
     (case dateStr of
        None \<Rightarrow> ''Unknown Date''
      | Some d \<Rightarrow>
          if d = [] \<or> length d \<noteq> 8 then ''Unknown Date''
          else (let year = take 4 d;
                    month = take 2 (drop 4 d);
                    day = take 2 (drop 6 d)
                in year @ ''-'' @ month @ ''-'' @ day))"

section \<open>Structured reports (\<^verbatim>\<open>dicom-sr.ts\<close>)\<close>

text \<open>
  Fields of the result interfaces carry a prefix per interface (\<open>fnd_\<close>, \<open>rep_\<close>,
  \<open>ko_\<close>, \<open>pr_\<close>, \<open>ga_\<close>, \<open>ov_\<close>, \<open>img_\<close>, \<open>ser_\<close>, \<open>std_\<close>), since several
  interfaces share field names. The branded UID types are strings.
\<close>

datatype finding = Finding
    (fnd_conceptName: string)
    (fnd_value: string)
    (fnd_valueType: string)
    (fnd_unit: "string option")
    (fnd_children: "finding list option")
    (fnd_referencedImageUID: "string option")

record dicomReport =
  rep_sopInstanceUID :: string
  rep_seriesInstanceUID :: string
  rep_contentDate :: "string option"
  rep_completionFlag :: string
  rep_verificationFlag :: string
  rep_findings :: "finding list"

definition SR_SOP_CLASSES :: "string list" where
  "SR_SOP_CLASSES =
     [''1.2.840.10008.5.1.4.1.1.88.11'', ''1.2.840.10008.5.1.4.1.1.88.22'',
      ''1.2.840.10008.5.1.4.1.1.88.33'', ''1.2.840.10008.5.1.4.1.1.88.34'',
      ''1.2.840.10008.5.1.4.1.1.88.35'', ''1.2.840.10008.5.1.4.1.1.88.40'',
      ''1.2.840.10008.5.1.4.1.1.88.50'', ''1.2.840.10008.5.1.4.1.1.88.65'',
      ''1.2.840.10008.5.1.4.1.1.88.67'', ''1.2.840.10008.5.1.4.1.1.88.68'',
      ''1.2.840.10008.5.1.4.1.1.88.69'', ''1.2.840.10008.5.1.4.1.1.88.70'',
      ''1.2.840.10008.5.1.4.1.1.88.71'', ''1.2.840.10008.5.1.4.1.1.88.72'',
      ''1.2.840.10008.5.1.4.1.1.88.73'', ''1.2.840.10008.5.1.4.1.1.88.74'',
      ''1.2.840.10008.5.1.4.1.1.88.75'', ''1.2.840.10008.5.1.4.1.1.88.76'']"

definition isSRFile :: "dataSet \<Rightarrow> bool" where
  "isSRFile ds =
     (let sopClassUID = dsString ds ''x00080016''
      in if \<not> truthy sopClassUID then False
         else the sopClassUID \<in> set SR_SOP_CLASSES)"

definition getConceptName :: "dataSet \<Rightarrow> string" where
  "getConceptName ds =
     (case firstItemDataSet (elementAt ds ''x0040a043'') of
        None \<Rightarrow> []
      | Some cnDataSet \<Rightarrow> orDefault (dsString cnDataSet ''x00080104'') [])"

text \<open>
  The \<^verbatim>\<open>switch (valueType)\<close> of \<^verbatim>\<open>parseContentItem\<close>: the triple
  (\<^verbatim>\<open>value\<close>, \<^verbatim>\<open>unit\<close>, \<^verbatim>\<open>referencedImageUID\<close>) it leaves behind, starting from
  \<^verbatim>\<open>''\<close>, \<^verbatim>\<open>undefined\<close>, \<^verbatim>\<open>undefined\<close>.
\<close>

definition itemValue ::
  "host \<Rightarrow> dataSet \<Rightarrow> string \<Rightarrow> string \<Rightarrow> string \<times> string option \<times> string option" where
  "itemValue h ds vt cn =
     (if vt = ''TEXT'' then
        (orDefault (dsString ds ''x0040a160'') [], None, None)
      else if vt = ''NUM'' then
        (case firstItemDataSet (elementAt ds ''x0040a300'') of
           None \<Rightarrow> ([], None, None)
         | Some mvDataSet \<Rightarrow>
             (case dsFloatString mvDataSet ''x0040a30a'' of
                None \<Rightarrow> []
              | Some numericValue \<Rightarrow> numberToString h numericValue,
              case firstItemDataSet (elementAt mvDataSet ''x004008ea'') of
                None \<Rightarrow> None
              | Some unitDS \<Rightarrow> dsString unitDS ''x00080104'',
              None))
      else if vt = ''CODE'' then
        (case firstItemDataSet (elementAt ds ''x0040a168'') of
           None \<Rightarrow> ([], None, None)
         | Some codeDS \<Rightarrow> (orDefault (dsString codeDS ''x00080104'') [], None, None))
      else if vt = ''IMAGE'' then
        (case firstItemDataSet (elementAt ds ''x00081199'') of
           None \<Rightarrow> ([], None, None)
         | Some refDS \<Rightarrow>
             (orElse cn ''Image Reference'', None, dsString refDS ''x00081155''))
      else if vt = ''CONTAINER'' then
        (orElse cn ''Container'', None, None)
      else
        (orElse cn vt, None, None))"

text \<open>
  \<^verbatim>\<open>parseContentItem\<close> and the loop over the child items, which pushes every
  non-null child finding onto \<^verbatim>\<open>children\<close>. The recursion descends into the
  nested content sequence of the item, so it ends.
\<close>

function parseContentItem :: "host \<Rightarrow> dataSet option \<Rightarrow> finding option"
  and parseChildItems :: "host \<Rightarrow> dataSet option list \<Rightarrow> finding list \<Rightarrow> finding list"
where
  "parseContentItem h None = None"
| "parseContentItem h (Some itemDataSet) =
     (let valueType = dsString itemDataSet ''x0040a040'' in
      if \<not> truthy valueType then None
      else
        let conceptName = getConceptName itemDataSet;
            (val, unit, referencedImageUID) =
               itemValue h itemDataSet (the valueType) conceptName;
            children =
              (case elementAt itemDataSet ''x0040a730'' of
                 None \<Rightarrow> None
               | Some contentSequence \<Rightarrow>
                   (case items contentSequence of
                      None \<Rightarrow> None
                    | Some its \<Rightarrow>
                        (let children = parseChildItems h its []
                         in if length children = 0 then None else Some children)))
        in Some (Finding (orElse conceptName ''Finding'') val (the valueType)
                   unit children referencedImageUID))"
| "parseChildItems h [] children = children"
| "parseChildItems h (childItem # rest) children =
     (case parseContentItem h childItem of
        None \<Rightarrow> parseChildItems h rest children
      | Some childFinding \<Rightarrow> parseChildItems h rest (children @ [childFinding]))"
  by pat_completeness auto
termination
proof (relation "measure (\<lambda>x. case x of
          Inl (h, d) \<Rightarrow> size_option size d
        | Inr (h, its, acc) \<Rightarrow> size_list (size_option size) its)", goal_cases)
  case (2 h itemDataSet valueType conceptName trip val rest unit ref contentSequence its)
  have lookup: "map_of xs k = Some (v::element) \<Longrightarrow>
                size v < size_list (size_prod (\<lambda>_. 0) size) xs" for xs k v
    by (induction xs) (auto split: if_splits)
  from 2 have "map_of (elements itemDataSet) ''x0040a730'' = Some contentSequence"
    by (simp add: elementAt_def)
  then have "size contentSequence < size itemDataSet"
    by (cases itemDataSet) (auto dest: lookup)
  moreover from 2 have "size_list (size_option size) its < size contentSequence"
    by (cases contentSequence) simp
  ultimately show ?case by simp
qed simp_all

text \<open>
  \<^verbatim>\<open>parseContentSequence\<close>: the same loop over the report's top-level content
  sequence, collecting into \<^verbatim>\<open>findings\<close>.
\<close>

definition parseContentSequence :: "host \<Rightarrow> dataSet \<Rightarrow> finding list" where
  "parseContentSequence h ds =
     (case elementAt ds ''x0040a730'' of
        None \<Rightarrow> []
      | Some contentSequence \<Rightarrow>
          (case items contentSequence of
             None \<Rightarrow> []
           | Some its \<Rightarrow> parseChildItems h its []))"

definition parseSR :: "host \<Rightarrow> dataSet \<Rightarrow> string \<Rightarrow> dicomReport option" where
  "parseSR h ds filePath =
     (let sopInstanceUID = dsString ds ''x00080018'';
          seriesInstanceUID = dsString ds ''x0020000e''
      in if \<not> truthy sopInstanceUID \<or> \<not> truthy seriesInstanceUID then None
         else
           let completionFlag = dsString ds ''x0040a491'';
               verificationFlag = dsString ds ''x0040a493'';
               contentDate = dsString ds ''x00080023'';
               findings = parseContentSequence h ds
           in Some \<lparr> rep_sopInstanceUID = the sopInstanceUID,
                      rep_seriesInstanceUID = the seriesInstanceUID,
                      rep_contentDate =
                        (if truthy contentDate then Some (formatDicomDate contentDate)
                         else None),
                      rep_completionFlag = orDefault completionFlag ''COMPLETE'',
                      rep_verificationFlag = orDefault verificationFlag ''UNVERIFIED'',
                      rep_findings = findings \<rparr>)"

section \<open>Key object selections (\<^verbatim>\<open>dicom-ko.ts\<close>)\<close>

record keyObjectSelection =
  ko_sopInstanceUID :: string
  ko_title :: string
  ko_description :: "string option"
  ko_keyImages :: "string list"

definition KO_SOP_CLASS :: string where
  "KO_SOP_CLASS = ''1.2.840.10008.5.1.4.1.1.88.59''"

definition isKOFile :: "dataSet \<Rightarrow> bool" where
  "isKOFile ds = (dsString ds ''x00080016'' = Some KO_SOP_CLASS)"

definition getKOTitle :: "dataSet \<Rightarrow> string" where
  "getKOTitle ds =
     (case firstItemDataSet (elementAt ds ''x0040a043'') of
        Some cnDataSet \<Rightarrow> orDefault (dsString cnDataSet ''x00080104'') []
      | None \<Rightarrow> [])"

text \<open>The loop of \<^verbatim>\<open>getKODescription\<close>, which returns at the first non-empty text.\<close>

fun descriptionLoop :: "dataSet option list \<Rightarrow> string option" where
  "descriptionLoop [] = None"
| "descriptionLoop (item # rest) =
     (case item of
        None \<Rightarrow> descriptionLoop rest
      | Some itemDS \<Rightarrow>
          (let valueType = dsString itemDS ''x0040a040'' in
           if valueType = Some ''TEXT'' then
             (let textValue = dsString itemDS ''x0040a160'' in
              if truthy textValue then textValue else descriptionLoop rest)
           else descriptionLoop rest))"

definition getKODescription :: "dataSet \<Rightarrow> string option" where
  "getKODescription ds =
     (case elementAt ds ''x0040a730'' of
        None \<Rightarrow> None
      | Some contentSeq \<Rightarrow>
          (case items contentSeq of
             None \<Rightarrow> None
           | Some its \<Rightarrow> descriptionLoop its))"

text \<open>
  \<^verbatim>\<open>parseReferencedImages\<close> of the key-object module. The block that tests for an
  \<^verbatim>\<open>IMAGE\<close> item and pushes its referenced SOP instance UID occurs twice in the
  source, once for the item and once for each item of its nested content sequence;
  \<open>pushImageReference\<close> is that block. \<open>nestedItemsLoop\<close> is the inner \<^verbatim>\<open>for\<close>,
  \<open>contentItemsLoop\<close> the outer one. Nothing descends further than the nested
  sequence.
\<close>

definition pushImageReference :: "dataSet \<Rightarrow> string list \<Rightarrow> string list" where
  "pushImageReference itemDS keyImages =
     (if dsString itemDS ''x0040a040'' = Some ''IMAGE'' then
        (case firstItemDataSet (elementAt itemDS ''x00081199'') of
           None \<Rightarrow> keyImages
         | Some refDS \<Rightarrow>
             (let refUID = dsString refDS ''x00081155''
              in if truthy refUID then keyImages @ [the refUID] else keyImages))
      else keyImages)"

fun nestedItemsLoop :: "dataSet option list \<Rightarrow> string list \<Rightarrow> string list" where
  "nestedItemsLoop [] keyImages = keyImages"
| "nestedItemsLoop (nestedItem # rest) keyImages =
     (case nestedItem of
        None \<Rightarrow> nestedItemsLoop rest keyImages
      | Some nestedDS \<Rightarrow> nestedItemsLoop rest (pushImageReference nestedDS keyImages))"

fun contentItemsLoop :: "dataSet option list \<Rightarrow> string list \<Rightarrow> string list" where
  "contentItemsLoop [] keyImages = keyImages"
| "contentItemsLoop (item # rest) keyImages =
     (case item of
        None \<Rightarrow> contentItemsLoop rest keyImages
      | Some itemDS \<Rightarrow>
          (let keyImages1 = pushImageReference itemDS keyImages;
               keyImages2 =
                 (case elementAt itemDS ''x0040a730'' of
                    None \<Rightarrow> keyImages1
                  | Some nestedContentSeq \<Rightarrow>
                      (case items nestedContentSeq of
                         None \<Rightarrow> keyImages1
                       | Some nestedItems \<Rightarrow> nestedItemsLoop nestedItems keyImages1))
           in contentItemsLoop rest keyImages2))"

definition parseReferencedImages_ko :: "dataSet \<Rightarrow> string list" where
  "parseReferencedImages_ko ds =
     (case elementAt ds ''x0040a730'' of
        None \<Rightarrow> []
      | Some contentSeq \<Rightarrow>
          (case items contentSeq of
             None \<Rightarrow> []
           | Some its \<Rightarrow> contentItemsLoop its []))"

definition parseKO :: "dataSet \<Rightarrow> string \<Rightarrow> keyObjectSelection option" where
  "parseKO ds filePath =
     (let sopInstanceUID = dsString ds ''x00080018''
      in if \<not> truthy sopInstanceUID then None
         else
           let title = getKOTitle ds;
               description = getKODescription ds;
               keyImages = parseReferencedImages_ko ds
           in if length keyImages = 0 then None
              else Some \<lparr> ko_sopInstanceUID = the sopInstanceUID,
                           ko_title = orElse title ''Key Images'',
                           ko_description = description,
                           ko_keyImages = keyImages \<rparr>)"

section \<open>Presentation states (\<^verbatim>\<open>dicom-pr.ts\<close>)\<close>

record graphicAnnotation =
  ga_graphicType :: string
  ga_graphicData :: "real list"
  ga_textValue :: "string option"

record presentationState =
  pr_sopInstanceUID :: string
  pr_referencedImageUIDs :: "string list"
  pr_windowCenter :: "real option"
  pr_windowWidth :: "real option"
  pr_presentationLabel :: "string option"
  pr_graphicAnnotations :: "graphicAnnotation list option"

definition PR_SOP_CLASSES :: "string list" where
  "PR_SOP_CLASSES =
     [''1.2.840.10008.5.1.4.1.1.11.1'', ''1.2.840.10008.5.1.4.1.1.11.2'',
      ''1.2.840.10008.5.1.4.1.1.11.3'', ''1.2.840.10008.5.1.4.1.1.11.4'',
      ''1.2.840.10008.5.1.4.1.1.11.5'', ''1.2.840.10008.5.1.4.1.1.11.6'',
      ''1.2.840.10008.5.1.4.1.1.11.7'', ''1.2.840.10008.5.1.4.1.1.11.8'',
      ''1.2.840.10008.5.1.4.1.1.11.9'', ''1.2.840.10008.5.1.4.1.1.11.10'',
      ''1.2.840.10008.5.1.4.1.1.11.11'', ''1.2.840.10008.5.1.4.1.1.11.12'']"

definition isPRFile :: "dataSet \<Rightarrow> bool" where
  "isPRFile ds =
     (let sopClassUID = dsString ds ''x00080016''
      in if \<not> truthy sopClassUID then False
         else the sopClassUID \<in> set PR_SOP_CLASSES)"

text \<open>\<^verbatim>\<open>parseReferencedImages\<close> of the presentation-state module: series, then images.\<close>

fun imageItemsLoop :: "dataSet option list \<Rightarrow> string list \<Rightarrow> string list" where
  "imageItemsLoop [] imageUIDs = imageUIDs"
| "imageItemsLoop (imageItem # rest) imageUIDs =
     (case imageItem of
        None \<Rightarrow> imageItemsLoop rest imageUIDs
      | Some imageDS \<Rightarrow>
          (let refUID = dsString imageDS ''x00081155''
           in if truthy refUID then imageItemsLoop rest (imageUIDs @ [the refUID])
              else imageItemsLoop rest imageUIDs))"

fun seriesItemsLoop :: "dataSet option list \<Rightarrow> string list \<Rightarrow> string list" where
  "seriesItemsLoop [] imageUIDs = imageUIDs"
| "seriesItemsLoop (seriesItem # rest) imageUIDs =
     (case seriesItem of
        None \<Rightarrow> seriesItemsLoop rest imageUIDs
      | Some seriesDS \<Rightarrow>
          (case elementAt seriesDS ''x00081140'' of
             None \<Rightarrow> seriesItemsLoop rest imageUIDs
           | Some refImageSeq \<Rightarrow>
               (case items refImageSeq of
                  None \<Rightarrow> seriesItemsLoop rest imageUIDs
                | Some imageItems \<Rightarrow>
                    seriesItemsLoop rest (imageItemsLoop imageItems imageUIDs))))"

definition parseReferencedImages_pr :: "dataSet \<Rightarrow> string list" where
  "parseReferencedImages_pr ds =
     (case elementAt ds ''x00081115'' of
        None \<Rightarrow> []
      | Some refSeriesSeq \<Rightarrow>
          (case items refSeriesSeq of
             None \<Rightarrow> []
           | Some its \<Rightarrow> seriesItemsLoop its []))"

definition parseVOILUT :: "dataSet \<Rightarrow> real option \<times> real option" where
  "parseVOILUT ds =
     (case firstItemDataSet (elementAt ds ''x00283110'') of
        None \<Rightarrow> (None, None)
      | Some voiDS \<Rightarrow> (dsFloatString voiDS ''x00281050'', dsFloatString voiDS ''x00281051''))"

text \<open>
  \<^verbatim>\<open>parseGraphicData\<close>: \<open>numPoints * 2\<close> reads of \<^verbatim>\<open>float(tag, i)\<close>, keeping the
  defined ones. A read that throws ends the function with that exception. The
  comparison of the element length with the expected byte count has an empty body in
  the source.
\<close>

function graphicDataLoop ::
  "host \<Rightarrow> dataSet \<Rightarrow> nat \<Rightarrow> nat \<Rightarrow> real list \<Rightarrow> real list completion" where
  "graphicDataLoop h objectDS numFloats i coords =
     (if i < numFloats then
        (case dsFloat h objectDS ''x00700022'' i of
           Throws \<Rightarrow> Throws
         | Returns None \<Rightarrow> graphicDataLoop h objectDS numFloats (i + 1) coords
         | Returns (Some floatValue) \<Rightarrow>
             graphicDataLoop h objectDS numFloats (i + 1) (coords @ [floatValue]))
      else Returns coords)"
  by pat_completeness auto
termination
  by (relation "measure (\<lambda>(h, objectDS, numFloats, i, coords). numFloats - i)") auto

definition parseGraphicData :: "host \<Rightarrow> dataSet \<Rightarrow> real list completion" where
  "parseGraphicData h objectDS =
     (case elementAt objectDS ''x00700022'' of
        None \<Rightarrow> Returns []
      | Some graphicDataElement \<Rightarrow>
          (let numPoints = unat (orDefault (dsUint16 objectDS ''x00700021'') 0)
           in if numPoints = 0 then Returns []
              else (let numFloats = numPoints * 2
                    in graphicDataLoop h objectDS numFloats 0 [])))"

definition mapGraphicType :: "string \<Rightarrow> string" where
  "mapGraphicType graphicType =
     (if graphicType = ''POINT'' then ''POINT''
      else if graphicType = ''POLYLINE'' \<or> graphicType = ''INTERPOLATED'' then ''POLYLINE''
      else if graphicType = ''CIRCLE'' then ''CIRCLE''
      else if graphicType = ''ELLIPSE'' then ''ELLIPSE''
      else ''POLYLINE'')"

definition parseGraphicObject :: "host \<Rightarrow> dataSet \<Rightarrow> graphicAnnotation option completion" where
  "parseGraphicObject h objectDS =
     (let graphicType = dsString objectDS ''x00700023''
      in if \<not> truthy graphicType then Returns None
         else
           let mappedType = mapGraphicType (the graphicType)
           in case parseGraphicData h objectDS of
                Throws \<Rightarrow> Throws
              | Returns graphicData \<Rightarrow>
                  if length graphicData = 0 then Returns None
                  else Returns (Some \<lparr> ga_graphicType = mappedType,
                                         ga_graphicData = graphicData,
                                         ga_textValue = None \<rparr>))"

definition parseTextObject :: "host \<Rightarrow> dataSet \<Rightarrow> graphicAnnotation option" where
  "parseTextObject h textDS =
     (let textValue = dsString textDS ''x00700006''
      in if \<not> truthy textValue then None
         else
           let anchorPointStr = dsString textDS ''x00700014'';
               graphicData1 =
                 (if truthy anchorPointStr then
                    (case numberParts h (the anchorPointStr) of
                       None \<Rightarrow> []
                     | Some parts \<Rightarrow> parts)
                  else []);
               graphicData2 =
                 (if length graphicData1 = 0 then
                    (let tlhcStr = dsString textDS ''x00700010''
                     in if truthy tlhcStr then
                          (case numberParts h (the tlhcStr) of
                             None \<Rightarrow> graphicData1
                           | Some parts \<Rightarrow> graphicData1 @ parts)
                        else graphicData1)
                  else graphicData1);
               graphicData3 =
                 (if length graphicData2 = 0 then graphicData2 @ [0, 0] else graphicData2)
           in Some \<lparr> ga_graphicType = ''TEXT'',
                      ga_graphicData = graphicData3,
                      ga_textValue = textValue \<rparr>)"

fun graphicObjectsLoop ::
  "host \<Rightarrow> dataSet option list \<Rightarrow> graphicAnnotation list \<Rightarrow>
   graphicAnnotation list completion" where
  "graphicObjectsLoop h [] annotations = Returns annotations"
| "graphicObjectsLoop h (objectItem # rest) annotations =
     (case objectItem of
        None \<Rightarrow> graphicObjectsLoop h rest annotations
      | Some objectDS \<Rightarrow>
          (case parseGraphicObject h objectDS of
             Throws \<Rightarrow> Throws
           | Returns None \<Rightarrow> graphicObjectsLoop h rest annotations
           | Returns (Some annotation) \<Rightarrow>
               graphicObjectsLoop h rest (annotations @ [annotation])))"

fun textObjectsLoop ::
  "host \<Rightarrow> dataSet option list \<Rightarrow> graphicAnnotation list \<Rightarrow> graphicAnnotation list" where
  "textObjectsLoop h [] annotations = annotations"
| "textObjectsLoop h (textItem # rest) annotations =
     (case textItem of
        None \<Rightarrow> textObjectsLoop h rest annotations
      | Some textDS \<Rightarrow>
          (case parseTextObject h textDS of
             None \<Rightarrow> textObjectsLoop h rest annotations
           | Some annotation \<Rightarrow> textObjectsLoop h rest (annotations @ [annotation])))"

fun annotationItemsLoop ::
  "host \<Rightarrow> dataSet option list \<Rightarrow> graphicAnnotation list \<Rightarrow>
   graphicAnnotation list completion" where
  "annotationItemsLoop h [] annotations = Returns annotations"
| "annotationItemsLoop h (annotationItem # rest) annotations =
     (case annotationItem of
        None \<Rightarrow> annotationItemsLoop h rest annotations
      | Some annotationDS \<Rightarrow>
          (case (case elementAt annotationDS ''x00700009'' of
                   None \<Rightarrow> Returns annotations
                 | Some graphicObjectSeq \<Rightarrow>
                     (case items graphicObjectSeq of
                        None \<Rightarrow> Returns annotations
                      | Some objectItems \<Rightarrow>
                          graphicObjectsLoop h objectItems annotations)) of
             Throws \<Rightarrow> Throws
           | Returns annotations1 \<Rightarrow>
               (let annotations2 =
                      (case elementAt annotationDS ''x00700008'' of
                         None \<Rightarrow> annotations1
                       | Some textObjectSeq \<Rightarrow>
                           (case items textObjectSeq of
                              None \<Rightarrow> annotations1
                            | Some textItems \<Rightarrow> textObjectsLoop h textItems annotations1))
                in annotationItemsLoop h rest annotations2)))"

definition parseGraphicAnnotations ::
  "host \<Rightarrow> dataSet \<Rightarrow> graphicAnnotation list completion" where
  "parseGraphicAnnotations h ds =
     (case elementAt ds ''x00700001'' of
        None \<Rightarrow> Returns []
      | Some graphicAnnotationSeq \<Rightarrow>
          (case items graphicAnnotationSeq of
             None \<Rightarrow> Returns []
           | Some its \<Rightarrow> annotationItemsLoop h its []))"

text \<open>
  \<^verbatim>\<open>parsePR\<close> has no \<^verbatim>\<open>try\<close> of its own: an exception of the graphic data
  leaves it, and is caught by the caller.
\<close>

definition parsePR :: "host \<Rightarrow> dataSet \<Rightarrow> string \<Rightarrow> presentationState option completion" where
  "parsePR h ds filePath =
     (let sopInstanceUID = dsString ds ''x00080018''
      in if \<not> truthy sopInstanceUID then Returns None
         else
           let referencedImageUIDs = parseReferencedImages_pr ds
           in if length referencedImageUIDs = 0 then Returns None
              else
                let (windowCenter, windowWidth) = parseVOILUT ds;
                    presentationLabel = dsString ds ''x00700080''
                in case parseGraphicAnnotations h ds of
                     Throws \<Rightarrow> Throws
                   | Returns graphicAnnotations \<Rightarrow>
                       Returns (Some
                         \<lparr> pr_sopInstanceUID = the sopInstanceUID,
                           pr_referencedImageUIDs = referencedImageUIDs,
                           pr_windowCenter = windowCenter,
                           pr_windowWidth = windowWidth,
                           pr_presentationLabel = presentationLabel,
                           pr_graphicAnnotations =
                             (if length graphicAnnotations > 0 then Some graphicAnnotations
                              else None) \<rparr>))"

section \<open>The loader (\<^verbatim>\<open>lib/dicom\<close>, after the terminology module in \<^verbatim>\<open>terminology.ts\<close>)\<close>

record graphicOverlay =
  ov_group :: nat
  ov_rows :: nat
  ov_columns :: nat
  ov_type :: string
  ov_origin :: "real \<times> real"
  ov_bitsAllocated :: nat
  ov_data :: "u8 list"
  ov_description :: "string option"
  ov_label :: "string option"

record dicomImage =
  img_sopInstanceUID :: string
  img_seriesInstanceUID :: string
  img_instanceNumber :: jsnum
  img_filePath :: string
  img_rows :: nat
  img_columns :: nat
  img_windowCenter :: "real option"
  img_windowWidth :: "real option"
  img_sliceLocation :: "real option"
  img_sliceThickness :: "real option"
  img_overlays :: "graphicOverlay list option"

record seriesMetadata =
  ser_seriesInstanceUID :: string
  ser_studyInstanceUID :: string
  ser_seriesNumber :: jsnum
  ser_seriesDescription :: string
  ser_bodyPart :: "string option"
  ser_modality :: string

record dicomSeries = seriesMetadata +
  ser_images :: "dicomImage list"

record studyMetadata =
  std_studyInstanceUID :: string
  std_patientName :: string
  std_patientId :: string
  std_studyDate :: string
  std_studyDescription :: string
  std_modality :: string
  std_institutionName :: "string option"
  std_referringPhysician :: "string option"

record dicomStudy = studyMetadata +
  std_series :: "dicomSeries list"
  std_reports :: "dicomReport list"
  std_keyObjectSelections :: "keyObjectSelection list"
  std_presentationStates :: "presentationState list"

datatype parseResult =
    ImageResult dicomImage
  | ReportResult dicomReport
  | KeyObjectResult keyObjectSelection
  | PresentationStateResult presentationState

definition maxFileSize :: nat where
  "maxFileSize = 500 * 1024 * 1024"

text \<open>\<^verbatim>\<open>group.toString(16).padStart(4, '0')\<close>.\<close>

definition hexDigit :: "nat \<Rightarrow> char" where
  "hexDigit d = ''0123456789abcdef'' ! (d mod 16)"

function toString16 :: "nat \<Rightarrow> string" where
  "toString16 n = (if n < 16 then [hexDigit n] else toString16 (n div 16) @ [hexDigit (n mod 16)])"
  by pat_completeness auto
termination
  by (relation "measure id") auto

definition padStart :: "nat \<Rightarrow> char \<Rightarrow> string \<Rightarrow> string" where
  "padStart n c s = replicate (n - length s) c @ s"

text \<open>
  \<^verbatim>\<open>parseOverlays\<close>: the loop over the sixteen groups \<open>0x6000, 0x6002, \<dots>, 0x601e\<close>.
  \<^verbatim>\<open>new Uint8Array(buffer, offset, length)\<close> throws a \<^verbatim>\<open>RangeError\<close> when the
  view does not fit the buffer; the result \<open>None\<close> is that exception. The byte array
  of the dataset is taken to span its whole buffer.
\<close>

function overlaysLoop ::
  "host \<Rightarrow> dataSet \<Rightarrow> nat \<Rightarrow> graphicOverlay list \<Rightarrow> graphicOverlay list option" where
  "overlaysLoop h ds grp overlays =
     (if grp \<le> 0x601e then
        (let prefix = padStart 4 (CHR ''0'') (toString16 grp);
             rows = unat (orDefault (dsUint16 ds (''x'' @ prefix @ ''0010'')) 0)
         in if rows = 0 then overlaysLoop h ds (grp + 2) overlays
            else
              let columns = unat (orDefault (dsUint16 ds (''x'' @ prefix @ ''0011'')) 0)
              in if columns = 0 then overlaysLoop h ds (grp + 2) overlays
                 else
                   let type = orDefault (dsString ds (''x'' @ prefix @ ''0040'')) ''G'';
                       originStr = dsString ds (''x'' @ prefix @ ''0050'');
                       origin =
                         (if truthy originStr then
                            (case numberParts h (the originStr) of
                               None \<Rightarrow> (1, 1)
                             | Some parts \<Rightarrow> (parts ! 0, parts ! 1))
                          else (1, 1))
                   in case elementAt ds (''x'' @ prefix @ ''3000'') of
                        None \<Rightarrow> overlaysLoop h ds (grp + 2) overlays
                      | Some dataElement \<Rightarrow>
                          if dataOffset dataElement + elLength dataElement > length (byteArray ds)
                          then None
                          else
                            let packedData =
                                  take (elLength dataElement)
                                    (drop (dataOffset dataElement) (byteArray ds));
                                unpackedData = unpackOverlayBits packedData (rows * columns)
                            in overlaysLoop h ds (grp + 2)
                                 (overlays @
                                  [\<lparr> ov_group = grp,
                                     ov_rows = rows,
                                     ov_columns = columns,
                                     ov_type = type,
                                     ov_origin = origin,
                                     ov_bitsAllocated = 1,
                                     ov_data = unpackedData,
                                     ov_description = dsString ds (''x'' @ prefix @ ''0022''),
                                     ov_label = dsString ds (''x'' @ prefix @ ''1500'') \<rparr>]))
      else Some overlays)"
  by pat_completeness auto
termination
  by (relation "measure (\<lambda>(h, ds, grp, overlays). 0x6020 - grp)") auto

definition parseOverlays :: "host \<Rightarrow> dataSet \<Rightarrow> graphicOverlay list option" where
  "parseOverlays h ds = overlaysLoop h ds 0x6000 []"

text \<open>
  \<^verbatim>\<open>parseDicomFile\<close>. Everything the \<^verbatim>\<open>try\<close> block can throw is caught and
  turned into \<^verbatim>\<open>null\<close>: a rejected read, a failing \<^verbatim>\<open>parseDicom\<close>, a float read
  past the end of the buffer inside \<^verbatim>\<open>parsePR\<close> and the \<^verbatim>\<open>RangeError\<close> of
  \<^verbatim>\<open>parseOverlays\<close>. The size check comes before the parse.
\<close>

definition parseDicomFile :: "host \<Rightarrow> string \<Rightarrow> parseResult option" where
  "parseDicomFile h filePath =
     (case readFile h filePath of
        Unreadable \<Rightarrow> None
      | Unparsable byteLength \<Rightarrow> None
      | Parsed byteLength dataSet \<Rightarrow>
          if byteLength > maxFileSize then None
          else if isSRFile dataSet then
            (case parseSR h dataSet filePath of
               None \<Rightarrow> None
             | Some report \<Rightarrow> Some (ReportResult report))
          else if isKOFile dataSet then
            (case parseKO dataSet filePath of
               None \<Rightarrow> None
             | Some ko \<Rightarrow> Some (KeyObjectResult ko))
          else if isPRFile dataSet then
            (case parsePR h dataSet filePath of
               Throws \<Rightarrow> None
             | Returns None \<Rightarrow> None
             | Returns (Some pr) \<Rightarrow> Some (PresentationStateResult pr))
          else
            (case elementAt dataSet ''x7fe00010'' of
               None \<Rightarrow> None
             | Some pixelDataElement \<Rightarrow>
                 (let sopInstanceUID = dsString dataSet ''x00080018'';
                      seriesInstanceUID = dsString dataSet ''x0020000e'';
                      instanceNumber = orDefault (dsIntString dataSet ''x00200013'') (Num 0);
                      rows = unat (orDefault (dsUint16 dataSet ''x00280010'') 0);
                      columns = unat (orDefault (dsUint16 dataSet ''x00280011'') 0)
                  in if \<not> truthy sopInstanceUID \<or> \<not> truthy seriesInstanceUID then None
                     else
                       (case parseOverlays h dataSet of
                          None \<Rightarrow> None
                        | Some overlays \<Rightarrow>
                            Some (ImageResult
                              \<lparr> img_sopInstanceUID = the sopInstanceUID,
                                img_seriesInstanceUID = the seriesInstanceUID,
                                img_instanceNumber = instanceNumber,
                                img_filePath = filePath,
                                img_rows = rows,
                                img_columns = columns,
                                img_windowCenter = dsFloatString dataSet ''x00281050'',
                                img_windowWidth = dsFloatString dataSet ''x00281051'',
                                img_sliceLocation = dsFloatString dataSet ''x00201041'',
                                img_sliceThickness = dsFloatString dataSet ''x00180050'',
                                img_overlays =
                                  (if length overlays > 0 then Some overlays else None) \<rparr>)))))"

definition parseStudyMetadata :: "host \<Rightarrow> string \<Rightarrow> studyMetadata option" where
  "parseStudyMetadata h filePath =
     (case readFile h filePath of
        Unreadable \<Rightarrow> None
      | Unparsable byteLength \<Rightarrow> None
      | Parsed byteLength dataSet \<Rightarrow>
          (let studyInstanceUID = dsString dataSet ''x0020000d''
           in if \<not> truthy studyInstanceUID then None
              else Some
                \<lparr> std_studyInstanceUID = the studyInstanceUID,
                  std_patientName =
                    trim (map (\<lambda>c. if c = CHR ''^'' then CHR '' '' else c)
                            (orDefault (dsString dataSet ''x00100010'') ''Unknown'')),
                  std_patientId = orDefault (dsString dataSet ''x00100020'') [],
                  std_studyDate = formatDicomDate (dsString dataSet ''x00080020''),
                  std_studyDescription = orDefault (dsString dataSet ''x00081030'') [],
                  std_modality = orDefault (dsString dataSet ''x00080060'') [],
                  std_institutionName = dsString dataSet ''x00080080'',
                  std_referringPhysician = dsString dataSet ''x00080090'' \<rparr>))"

definition parseSeriesMetadata :: "host \<Rightarrow> string \<Rightarrow> seriesMetadata option" where
  "parseSeriesMetadata h filePath =
     (case readFile h filePath of
        Unreadable \<Rightarrow> None
      | Unparsable byteLength \<Rightarrow> None
      | Parsed byteLength dataSet \<Rightarrow>
          (let seriesInstanceUID = dsString dataSet ''x0020000e'';
               studyInstanceUID = dsString dataSet ''x0020000d''
           in if \<not> truthy seriesInstanceUID \<or> \<not> truthy studyInstanceUID then None
              else Some
                \<lparr> ser_seriesInstanceUID = the seriesInstanceUID,
                  ser_studyInstanceUID = the studyInstanceUID,
                  ser_seriesNumber = orDefault (dsIntString dataSet ''x00200011'') (Num 0),
                  ser_seriesDescription = orDefault (dsString dataSet ''x0008103e'') [],
                  ser_bodyPart = dsString dataSet ''x00180015'',
                  ser_modality = orDefault (dsString dataSet ''x00080060'') [] \<rparr>))"

text \<open>
  The accumulators of \<^verbatim>\<open>loadDicomFromFolder\<close>. The \<^verbatim>\<open>Map\<close> of series keeps
  insertion order, so it is an association list that is only ever extended at the end
  with a key it does not hold yet. The progress callback receives notifications and
  returns nothing to the loader; it is left out.
\<close>

record accumulators =
  images :: "dicomImage list"
  reports :: "dicomReport list"
  keyObjectSelections :: "keyObjectSelection list"
  presentationStates :: "presentationState list"
  seriesMap :: "(string \<times> dicomSeries) list"

definition emptyAccumulators :: accumulators where
  "emptyAccumulators =
     \<lparr> images = [], reports = [], keyObjectSelections = [], presentationStates = [],
       seriesMap = [] \<rparr>"

text \<open>The first loop: the first of the given paths that yields study metadata.\<close>

fun studyMetadataLoop :: "host \<Rightarrow> string list \<Rightarrow> studyMetadata option" where
  "studyMetadataLoop h [] = None"
| "studyMetadataLoop h (filePath # rest) =
     (case parseStudyMetadata h filePath of
        Some studyMetadata \<Rightarrow> Some studyMetadata
      | None \<Rightarrow> studyMetadataLoop h rest)"

text \<open>The body of the main loop for one file, and the loop.\<close>

definition ingestFile :: "host \<Rightarrow> string \<Rightarrow> accumulators \<Rightarrow> accumulators" where
  "ingestFile h filePath acc =
     (case parseDicomFile h filePath of
        None \<Rightarrow> acc
      | Some (ImageResult img) \<Rightarrow>
          (let acc1 = acc\<lparr> images := images acc @ [img] \<rparr>
           in if map_of (seriesMap acc1) (img_seriesInstanceUID img) = None then
                (case parseSeriesMetadata h filePath of
                   None \<Rightarrow> acc1
                 | Some seriesMeta \<Rightarrow>
                     acc1\<lparr> seriesMap := seriesMap acc1 @
                              [(img_seriesInstanceUID img,
                                seriesMetadata.extend seriesMeta
                                  (dicomSeries.fields []))] \<rparr>)
              else acc1)
      | Some (ReportResult report) \<Rightarrow> acc\<lparr> reports := reports acc @ [report] \<rparr>
      | Some (KeyObjectResult ko) \<Rightarrow>
          acc\<lparr> keyObjectSelections := keyObjectSelections acc @ [ko] \<rparr>
      | Some (PresentationStateResult pr) \<Rightarrow>
          acc\<lparr> presentationStates := presentationStates acc @ [pr] \<rparr>)"

fun ingestLoop :: "host \<Rightarrow> string list \<Rightarrow> accumulators \<Rightarrow> accumulators" where
  "ingestLoop h [] acc = acc"
| "ingestLoop h (filePath # rest) acc = ingestLoop h rest (ingestFile h filePath acc)"

text \<open>Organising the images into their series: \<^verbatim>\<open>series.images.push(image)\<close>.\<close>

fun organizeLoop ::
  "dicomImage list \<Rightarrow> (string \<times> dicomSeries) list \<Rightarrow> (string \<times> dicomSeries) list" where
  "organizeLoop [] m = m"
| "organizeLoop (img # rest) m =
     (case map_of m (img_seriesInstanceUID img) of
        None \<Rightarrow> organizeLoop rest m
      | Some series \<Rightarrow>
          organizeLoop rest
            (AList.map_entry (img_seriesInstanceUID img)
               (\<lambda>s. s\<lparr> ser_images := ser_images s @ [img] \<rparr>) m))"

text \<open>
  \<^verbatim>\<open>array.sort((a, b) => key(a) - key(b))\<close>. The difference of two integers has
  the sign of their order, so when no key is \<^verbatim>\<open>NaN\<close> the comparator is consistent
  and the result is the stable sort by the key. When a key is \<^verbatim>\<open>NaN\<close> the
  comparator returns \<^verbatim>\<open>NaN\<close> and the order of the result is the engine's; the
  result is still a rearrangement of the array. An answer of the engine that is not a
  rearrangement of the indices leaves the array as it is.
\<close>

definition numberOf :: "jsnum \<Rightarrow> int" where
  "numberOf k = (case k of NaN \<Rightarrow> 0 | Num n \<Rightarrow> n)"

definition applyOrder :: "nat list \<Rightarrow> 'a list \<Rightarrow> 'a list" where
  "applyOrder order xs =
     (if sort order = [0..<length xs] then map (\<lambda>i. xs ! i) order else xs)"

definition sortByKey :: "host \<Rightarrow> ('a \<Rightarrow> jsnum) \<Rightarrow> 'a list \<Rightarrow> 'a list" where
  "sortByKey h key xs =
     (if NaN \<in> set (map key xs) then applyOrder (engineOrder h (map key xs)) xs
      else sort_key (\<lambda>x. numberOf (key x)) xs)"

text \<open>The two sort passes of \<^verbatim>\<open>loadDicomFromFolder\<close>.\<close>

definition sortImages ::
  "host \<Rightarrow> (string \<times> dicomSeries) list \<Rightarrow> (string \<times> dicomSeries) list" where
  "sortImages h m =
     map (\<lambda>(k, series).
            (k, series\<lparr> ser_images := sortByKey h img_instanceNumber (ser_images series) \<rparr>)) m"

definition sortSeries :: "host \<Rightarrow> (string \<times> dicomSeries) list \<Rightarrow> dicomSeries list" where
  "sortSeries h m = sortByKey h ser_seriesNumber (map snd m)"

definition loadDicomFromFolder :: "host \<Rightarrow> string list \<Rightarrow> dicomStudy option" where
  "loadDicomFromFolder h filePaths =
     (if length filePaths = 0 then None
      else
        (case studyMetadataLoop h (take 10 filePaths) of
           None \<Rightarrow> None
         | Some studyMetadata \<Rightarrow>
             (let acc = ingestLoop h filePaths emptyAccumulators;
                  organized = organizeLoop (images acc) (seriesMap acc);
                  sortedSeries = sortSeries h (sortImages h organized)
              in if length sortedSeries = 0 then None
                 else Some (studyMetadata.extend studyMetadata
                        (dicomStudy.fields sortedSeries (reports acc)
                           (keyObjectSelections acc) (presentationStates acc))))))"

section \<open>Rendering of vector annotations (\<^verbatim>\<open>AnnotationOverlay.tsx\<close>)\<close>

text \<open>
  \<^verbatim>\<open>AnnotationShape\<close> returns one SVG element or \<^verbatim>\<open>null\<close>. The element is kept as
  data: a circle with centre, radius and fill, a polyline with its points, an ellipse
  with centre, radii and rotation in degrees, a text with its position. JavaScript
  numbers are idealised as reals, \<^verbatim>\<open>Math.sqrt\<close> is the real square root and
  \<^verbatim>\<open>Math.atan2\<close> the two-argument arctangent.
\<close>

datatype svgElement =
    SvgCircle real real real string
  | SvgPolyline "(real \<times> real option) list"
  | SvgEllipse real real real real real
  | SvgText real real string

definition strokeColor :: string where
  "strokeColor = ''#00ff00''"

definition atan2 :: "real \<Rightarrow> real \<Rightarrow> real" where
  "atan2 y x =
     (if x > 0 then arctan (y / x)
      else if x < 0 \<and> y \<ge> 0 then arctan (y / x) + pi
      else if x < 0 \<and> y < 0 then arctan (y / x) - pi
      else if y > 0 then pi / 2
      else if y < 0 then - pi / 2
      else 0)"

text \<open>
  The loop of the \<^verbatim>\<open>POLYLINE\<close> case steps through the coordinates two at a time;
  the second coordinate of the last point is \<^verbatim>\<open>undefined\<close> when the count is odd.
\<close>

fun polylinePoints :: "real list \<Rightarrow> (real \<times> real option) list" where
  "polylinePoints [] = []"
| "polylinePoints [x] = [(x, None)]"
| "polylinePoints (x # y # rest) = (x, Some y) # polylinePoints rest"

definition AnnotationShape :: "graphicAnnotation \<Rightarrow> svgElement option" where
  "AnnotationShape annotation =
     (let graphicType = ga_graphicType annotation;
          graphicData = ga_graphicData annotation;
          textValue = ga_textValue annotation
      in if graphicType = ''POINT'' then
           (if length graphicData < 2 then None
            else Some (SvgCircle (graphicData ! 0) (graphicData ! 1) 4 strokeColor))
         else if graphicType = ''POLYLINE'' then
           (if length graphicData < 4 then None
            else Some (SvgPolyline (polylinePoints graphicData)))
         else if graphicType = ''CIRCLE'' then
           (if length graphicData < 4 then None
            else
              let cx = graphicData ! 0; cy = graphicData ! 1;
                  px = graphicData ! 2; py = graphicData ! 3;
                  radius = sqrt ((px - cx) ^ 2 + (py - cy) ^ 2)
              in Some (SvgCircle cx cy radius ''none''))
         else if graphicType = ''ELLIPSE'' then
           (if length graphicData < 8 then None
            else
              let ax1 = graphicData ! 0; ay1 = graphicData ! 1;
                  ax2 = graphicData ! 2; ay2 = graphicData ! 3;
                  bx1 = graphicData ! 4; by1 = graphicData ! 5;
                  bx2 = graphicData ! 6; by2 = graphicData ! 7;
                  cx = (ax1 + ax2) / 2;
                  cy = (ay1 + ay2) / 2;
                  rx = sqrt ((ax2 - ax1) ^ 2 + (ay2 - ay1) ^ 2) / 2;
                  ry = sqrt ((bx2 - bx1) ^ 2 + (by2 - by1) ^ 2) / 2;
                  rotation = atan2 (ay2 - ay1) (ax2 - ax1) * (180 / pi)
              in Some (SvgEllipse cx cy rx ry rotation))
         else if graphicType = ''TEXT'' then
           (if length graphicData < 2 \<or> \<not> truthy textValue then None
            else Some (SvgText (graphicData ! 0) (graphicData ! 1) (the textValue)))
         else None)"

section \<open>Predicates and reference definitions used in the statements\<close>

text \<open>
  A finding satisfies \<open>childrenAbsentOrNonEmpty\<close> when, throughout its tree, every
  \<^verbatim>\<open>children\<close> field is either absent or a non-empty list.
\<close>

fun childrenAbsentOrNonEmpty :: "finding \<Rightarrow> bool" where
  "childrenAbsentOrNonEmpty (Finding cn v vt u ch r) =
     (case ch of
        None \<Rightarrow> True
      | Some cs \<Rightarrow> cs \<noteq> [] \<and> (\<forall>c\<in>set cs. childrenAbsentOrNonEmpty c))"

text \<open>
  The items of the content sequence of a dataset, and the references of the
  \<^verbatim>\<open>IMAGE\<close> items found in the content tree down to a given depth, in encounter
  order (an item before the items nested in it). This follows the wording of the
  specification of the reference resolver; depth 1 is the top level.
\<close>

definition contentItems :: "dataSet \<Rightarrow> dataSet option list" where
  "contentItems ds =
     (case elementAt ds ''x0040a730'' of
        None \<Rightarrow> []
      | Some contentSeq \<Rightarrow> (case items contentSeq of None \<Rightarrow> [] | Some its \<Rightarrow> its))"

fun imageLeavesToDepth_spec :: "nat \<Rightarrow> dataSet \<Rightarrow> string list" where
  "imageLeavesToDepth_spec 0 ds = []"
| "imageLeavesToDepth_spec (Suc n) ds =
     concat (map (\<lambda>item. case item of
                      None \<Rightarrow> []
                    | Some itemDS \<Rightarrow>
                        pushImageReference itemDS [] @ imageLeavesToDepth_spec n itemDS)
                 (contentItems ds))"

section \<open>Example inputs\<close>

text \<open>
  The value of four little-endian bytes as an IEEE 754 single, for finite values (an
  all-ones exponent is read like any other exponent).
\<close>

definition ieeeSingle :: "u8 list \<Rightarrow> real" where
  "ieeeSingle bytes =
     (let w = foldr (\<lambda>b acc. unat b + 256 * acc) bytes 0;
          sign = w div 2 ^ 31;
          e = (w div 2 ^ 23) mod 256;
          f = w mod 2 ^ 23;
          magnitude =
            (if e = 0 then real f / 2 ^ 23 / 2 ^ 126
             else (1 + real f / 2 ^ 23) *
                  (if 127 \<le> e then 2 ^ (e - 127) else 1 / 2 ^ (127 - e)))
      in if sign = 1 then - magnitude else magnitude)"

text \<open>
  Four image files (\<open>a\<close> and \<open>b\<close> in series \<open>S1\<close>, \<open>c\<close> in series \<open>S2\<close>, and \<open>d\<close> in
  series \<open>S3\<close> but without a study instance UID), a key-object file \<open>k\<close> with one
  top-level image reference, a key-object file \<open>e\<close> whose only image reference
  sits at depth 3, and a file \<open>x\<close> that the reader cannot parse.
\<close>

definition exImageA :: dataSet where
  "exImageA = DataSet [(''x7fe00010'', Element 0 0 None)]
     [(''x00080018'', ''1.1''), (''x0020000e'', ''S1''), (''x0020000d'', ''ST'')]
     [(''x00200013'', Num 2), (''x00200011'', Num 5)] [] [] []"

definition exImageB :: dataSet where
  "exImageB = DataSet [(''x7fe00010'', Element 0 0 None)]
     [(''x00080018'', ''1.2''), (''x0020000e'', ''S1''), (''x0020000d'', ''ST'')]
     [(''x00200013'', Num 1), (''x00200011'', Num 5)] [] [] []"

definition exImageC :: dataSet where
  "exImageC = DataSet [(''x7fe00010'', Element 0 0 None)]
     [(''x00080018'', ''1.3''), (''x0020000e'', ''S2''), (''x0020000d'', ''ST'')]
     [(''x00200013'', Num 1), (''x00200011'', Num 3)] [] [] []"

definition exImageD :: dataSet where
  "exImageD = DataSet [(''x7fe00010'', Element 0 0 None)]
     [(''x00080018'', ''1.4''), (''x0020000e'', ''S3'')]
     [(''x00200013'', Num 1), (''x00200011'', Num 1)] [] [] []"

definition exKO :: dataSet where
  "exKO = DataSet
     [(''x0040a730'', Element 0 0 (Some
        [Some (DataSet
           [(''x00081199'', Element 0 0 (Some
              [Some (DataSet [] [(''x00081155'', ''1.1'')] [] [] [] [])]))]
           [(''x0040a040'', ''IMAGE'')] [] [] [] [])]))]
     [(''x00080016'', ''1.2.840.10008.5.1.4.1.1.88.59''), (''x00080018'', ''2.1'')]
     [] [] [] []"

text \<open>
  A key-object dataset whose only \<^verbatim>\<open>IMAGE\<close> item sits at depth 3, inside two
  nested containers.
\<close>

definition exDeepKO :: dataSet where
  "exDeepKO =
     (let ref = DataSet [] [(''x00081155'', ''1.2.3'')] [] [] [] [];
          leaf = DataSet [(''x00081199'', Element 0 0 (Some [Some ref]))]
                   [(''x0040a040'', ''IMAGE'')] [] [] [] [];
          inner = DataSet [(''x0040a730'', Element 0 0 (Some [Some leaf]))]
                   [(''x0040a040'', ''CONTAINER'')] [] [] [] [];
          outer = DataSet [(''x0040a730'', Element 0 0 (Some [Some inner]))]
                   [(''x0040a040'', ''CONTAINER'')] [] [] [] []
      in DataSet [(''x0040a730'', Element 0 0 (Some [Some outer]))]
           [(''x00080016'', ''1.2.840.10008.5.1.4.1.1.88.59''), (''x00080018'', ''2.2'')]
           [] [] [] [])"

text \<open>
  Four image files \<open>n1\<close>, \<open>n2\<close>, \<open>n3\<close>, \<open>n4\<close> of one series \<open>S9\<close> with the instance
  numbers 3, \<^verbatim>\<open>NaN\<close> (a blank value), 1 and 2.
\<close>

definition exNumbered :: "string \<Rightarrow> jsnum \<Rightarrow> dataSet" where
  "exNumbered sop n = DataSet [(''x7fe00010'', Element 0 0 None)]
     [(''x00080018'', sop), (''x0020000e'', ''S9''), (''x0020000d'', ''ST'')]
     [(''x00200013'', n), (''x00200011'', Num 9)] [] [] []"

text \<open>
  A presentation-state file \<open>t\<close> with one referenced image and one graphic object
  that announces two points, while the byte array ends after the first point: the
  third float read reaches past the end of the buffer.
\<close>

definition exTruncatedPR :: dataSet where
  "exTruncatedPR =
     (let object = DataSet [(''x00700022'', Element 16 0 None)]
                     [(''x00700023'', ''CIRCLE'')] [] [(''x00700021'', 2)] []
                     [0, 0, 0x20, 0x41, 0, 0, 0x20, 0x41];
          annotation = DataSet [(''x00700009'', Element 0 0 (Some [Some object]))]
                         [] [] [] [] [];
          refImage = DataSet [] [(''x00081155'', ''1.1'')] [] [] [] [];
          refSeries = DataSet [(''x00081140'', Element 0 0 (Some [Some refImage]))]
                        [] [] [] [] []
      in DataSet [(''x00081115'', Element 0 0 (Some [Some refSeries])),
                  (''x00700001'', Element 0 0 (Some [Some annotation]))]
           [(''x00080016'', ''1.2.840.10008.5.1.4.1.1.11.1''), (''x00080018'', ''3.1'')]
           [] [] [] [])"

text \<open>
  The host that serves these files; every other path is unreadable. Its engine leaves
  an array with a \<^verbatim>\<open>NaN\<close> key in the order it has, which is what V8 does with the
  four instance numbers above (it finds 3, \<^verbatim>\<open>NaN\<close>, 1, 2 to be one ascending run,
  every comparison with \<^verbatim>\<open>NaN\<close> counting as equal).
\<close>

definition exHost :: host where
  "exHost = \<lparr> readFile = (\<lambda>p.
       if p = ''a'' then Parsed 10 exImageA
       else if p = ''b'' then Parsed 10 exImageB
       else if p = ''c'' then Parsed 10 exImageC
       else if p = ''d'' then Parsed 10 exImageD
       else if p = ''k'' then Parsed 10 exKO
       else if p = ''e'' then Parsed 10 exDeepKO
       else if p = ''x'' then Unparsable 10
       else if p = ''t'' then Parsed 10 exTruncatedPR
       else if p = ''n1'' then Parsed 10 (exNumbered ''9.1'' (Num 3))
       else if p = ''n2'' then Parsed 10 (exNumbered ''9.2'' NaN)
       else if p = ''n3'' then Parsed 10 (exNumbered ''9.3'' (Num 1))
       else if p = ''n4'' then Parsed 10 (exNumbered ''9.4'' (Num 2))
       else Unreadable),
     toNumber = (\<lambda>s. None),
     numberToString = (\<lambda>r. []),
     decodeFloat32 = ieeeSingle,
     engineOrder = (\<lambda>keys. [0..<length keys]) \<rparr>"

definition imgOf :: "string \<Rightarrow> string \<Rightarrow> jsnum \<Rightarrow> string \<Rightarrow> dicomImage" where
  "imgOf sop ser n p = \<lparr> img_sopInstanceUID = sop, img_seriesInstanceUID = ser,
      img_instanceNumber = n, img_filePath = p, img_rows = 0, img_columns = 0,
      img_windowCenter = None, img_windowWidth = None, img_sliceLocation = None,
      img_sliceThickness = None, img_overlays = None \<rparr>"

definition serOf :: "string \<Rightarrow> jsnum \<Rightarrow> seriesMetadata" where
  "serOf uid n = \<lparr> ser_seriesInstanceUID = uid, ser_studyInstanceUID = ''ST'',
      ser_seriesNumber = n, ser_seriesDescription = [], ser_bodyPart = None,
      ser_modality = [] \<rparr>"

definition exPaths :: "string list" where
  "exPaths = [''a'', ''b'', ''x'', ''c'', ''d'', ''k'', ''e'']"

definition exNaNPaths :: "string list" where
  "exNaNPaths = [''n1'', ''n2'', ''n3'', ''n4'']"

text \<open>
  A report item of type \<^verbatim>\<open>CONTAINER\<close> whose single child has no value type, and
  a graphic object of type \<^verbatim>\<open>CIRCLE\<close> whose sixteen bytes are the floats 10, 10,
  13, 10, that is the two points \<open>(10,10)\<close> and \<open>(13,10)\<close>.
\<close>

definition exContainer :: dataSet where
  "exContainer = DataSet
     [(''x0040a730'', Element 0 0 (Some [Some (DataSet [] [] [] [] [] [])]))]
     [(''x0040a040'', ''CONTAINER'')] [] [] [] []"

definition exCircle :: dataSet where
  "exCircle = DataSet [(''x00700022'', Element 16 0 None)]
     [(''x00700023'', ''CIRCLE'')] [] [(''x00700021'', 2)] []
     [0, 0, 0x20, 0x41, 0, 0, 0x20, 0x41, 0, 0, 0x50, 0x41, 0, 0, 0x20, 0x41]"

text \<open>
  An image dataset with one overlay plane in group \<open>0x6000\<close>: 2 rows, 4 columns and
  the single packed byte \<open>0b00001011\<close> at offset 0 of the byte array.
\<close>

definition exOverlayImage :: dataSet where
  "exOverlayImage = DataSet [(''x60003000'', Element 1 0 None)] [] []
     [(''x60000010'', 2), (''x60000011'', 4)] [] [11]"

section \<open>Properties of the overlay decoder\<close>

text \<open>
  The equations of the loops that count upwards are unconditional; they are unfolded by
  hand.
\<close>

declare unpackLoop.simps [simp del]
declare graphicDataLoop.simps [simp del]
declare overlaysLoop.simps [simp del]
declare toString16.simps [simp del]
declare parseContentItem.simps(2) [simp del]

lemma length_unpackLoop:
  "length (unpackLoop packed n i unpacked) = length unpacked"
  by (induction packed n i unpacked rule: unpackLoop.induct)
     (subst unpackLoop.simps, simp add: Let_def)

lemma shift_and_one: "(drop_bit k (w :: u8)) AND 1 = (if bit w k then 1 else 0)"
  by (simp add: and_one_eq bit_iff_odd_drop_bit mod_2_eq_odd)

lemma unpackLoop_nth_below:
  "k < i \<Longrightarrow> unpackLoop packed n i unpacked ! k = unpacked ! k"
proof (induction packed n i unpacked rule: unpackLoop.induct)
  case (1 packed n i unpacked)
  show ?case
  proof (cases "i < n")
    case True
    then show ?thesis
      using "1.IH" [OF True refl refl] "1.prems"
      by (subst unpackLoop.simps) (simp add: Let_def)
  next
    case False
    then show ?thesis by (subst unpackLoop.simps) simp
  qed
qed

lemma unpackLoop_nth:
  "i \<le> k \<Longrightarrow> k < n \<Longrightarrow> length unpacked = n \<Longrightarrow>
   unpackLoop packed n i unpacked ! k =
     (if k div 8 < length packed
      then (if bit (packed ! (k div 8)) (k mod 8) then 1 else 0)
      else unpacked ! k)"
proof (induction packed n i unpacked rule: unpackLoop.induct)
  case (1 packed n i unpacked)
  from "1.prems" have lt: "i < n" by simp
  show ?case
  proof (cases "i = k")
    case True
    then show ?thesis
      using lt "1.prems"
      by (subst unpackLoop.simps)
         (simp add: Let_def unpackLoop_nth_below shift_and_one)
  next
    case False
    with "1.prems" have "i + 1 \<le> k" by simp
    then show ?thesis
      using "1.IH" [OF lt refl refl] "1.prems" lt False
      by (subst unpackLoop.simps) (simp add: Let_def)
  qed
qed

lemma length_unpackOverlayBits: "length (unpackOverlayBits packed n) = n"
  by (simp add: unpackOverlayBits_def length_unpackLoop)

lemma unpackOverlayBits_nth:
  "i < n \<Longrightarrow> unpackOverlayBits packed n ! i =
     (if i div 8 < length packed \<and> bit (packed ! (i div 8)) (i mod 8) then 1 else 0)"
  by (simp add: unpackOverlayBits_def unpackLoop_nth)

lemma ex_overlay:
  "parseOverlays h exOverlayImage =
     Some [\<lparr> ov_group = 0x6000, ov_rows = 2, ov_columns = 4, ov_type = ''G'',
              ov_origin = (1, 1), ov_bitsAllocated = 1,
              ov_data = [1, 1, 0, 1, 0, 0, 0, 0],
              ov_description = None, ov_label = None \<rparr>]"
proof -
  have u: "unpackOverlayBits [11] 8 = [1, 1, 0, 1, 0, 0, 0, 0]"
    by code_simp
  show ?thesis
    by (simp add: parseOverlays_def overlaysLoop.simps toString16.simps hexDigit_def
          padStart_def exOverlayImage_def dsUint16_def dsString_def elementAt_def
          orDefault_def truthy_def Let_def u)
qed

text \<open>
  Claim C3. For every packed buffer and pixel count \<open>n\<close>, \<open>unpackOverlayBits\<close> returns
  exactly \<open>n\<close> bytes; byte \<open>i\<close> is bit \<open>i mod 8\<close> of packed byte \<open>i div 8\<close>, and it is
  \<open>0\<close> when \<open>i div 8\<close> lies at or beyond the end of the packed buffer, which is then not
  read. With 2 rows, 4 columns and the packed byte \<open>0b00001011\<close> the result is
  \<open>[1,1,0,1,0,0,0,0]\<close>, and \<open>parseOverlays\<close> returns it as the data of the overlay of
  group \<open>0x6000\<close> of such an image.
\<close>

theorem unpackOverlayBits_correct:
  "length (unpackOverlayBits packed n) = n \<and>
   (\<forall>i<n. unpackOverlayBits packed n ! i =
      (if i div 8 < length packed
       then (if bit (packed ! (i div 8)) (i mod 8) then 1 else 0)
       else 0)) \<and>
   unpackOverlayBits [11] (2 * 4) = [1, 1, 0, 1, 0, 0, 0, 0] \<and>
   map ov_data (the (parseOverlays h exOverlayImage)) = [[1, 1, 0, 1, 0, 0, 0, 0]]"
proof (intro conjI allI impI)
  show "length (unpackOverlayBits packed n) = n"
    by (rule length_unpackOverlayBits)
next
  fix i assume "i < n"
  then show "unpackOverlayBits packed n ! i =
      (if i div 8 < length packed
       then (if bit (packed ! (i div 8)) (i mod 8) then 1 else 0)
       else 0)"
    by (simp add: unpackOverlayBits_nth)
next
  show "unpackOverlayBits [11] (2 * 4) = [1, 1, 0, 1, 0, 0, 0, 0]"
    by code_simp
next
  show "map ov_data (the (parseOverlays h exOverlayImage)) = [[1, 1, 0, 1, 0, 0, 0, 0]]"
    by (simp add: ex_overlay)
qed

theorem unpackOverlayBits_correct_witness:
  "(9::nat) < 12 \<and> length (unpackOverlayBits [11, 2] 12) = 12 \<and>
   unpackOverlayBits [11, 2] 12 ! 9 = 1"
  using unpackOverlayBits_correct [of "[11, 2]" 12] by simp

lemma bit_fold_set:
  "bit (fold (\<lambda>b acc. if P b then set_bit b acc else acc) [0..<m] (0::u8)) k \<longleftrightarrow> k < m \<and> k < 8 \<and> P k"
proof (induction m)
  case 0 show ?case by simp
next
  case (Suc m)
  show ?case using Suc.IH
    by (auto simp add: bit_set_bit_iff less_Suc_eq dest: bit_imp_le_length)
qed

lemma bit_repackByte:
  "bit (repackByte_spec unpacked j) b \<longleftrightarrow>
     b < 8 \<and> 8 * j + b < length unpacked \<and> unpacked ! (8 * j + b) \<noteq> 0"
  unfolding repackByte_spec_def by (simp add: bit_fold_set) 

lemma bit_repack_unpack:
  assumes "j < L"
  shows "bit (repackOverlayBits_spec L (unpackOverlayBits packed N) ! j) b \<longleftrightarrow>
     b < 8 \<and> 8 * j + b < N \<and> j < length packed \<and> bit (packed ! j) b"
  using assms
  by (auto simp add: repackOverlayBits_spec_def bit_repackByte length_unpackOverlayBits unpackOverlayBits_nth split: if_splits)

lemma length_repack: "length (repackOverlayBits_spec L unpacked) = L"
  by (simp add: repackOverlayBits_spec_def)

text \<open>
  Claim C9 (as amended). For a packed buffer of \<open>L\<close> bytes and a pixel count
  \<open>N \<le> 8L\<close>, unpacking \<open>N\<close> bits and re-packing them into \<open>L\<close> bytes reproduces the
  buffer with every bit at position \<open>N\<close> or beyond cleared: bit \<open>b\<close> of re-packed
  byte \<open>j\<close> is set exactly when \<open>8j + b < N\<close> and bit \<open>b\<close> of packed byte \<open>j\<close> is set.
  The whole buffer is reproduced when \<open>N = 8L\<close>.
\<close>

theorem repack_unpack_prefix:
  assumes "N \<le> 8 * length packed"
  shows "length (repackOverlayBits_spec (length packed) (unpackOverlayBits packed N)) = length packed \<and>
     (\<forall>j<length packed. \<forall>b<8.
        bit (repackOverlayBits_spec (length packed) (unpackOverlayBits packed N) ! j) b
          \<longleftrightarrow> 8 * j + b < N \<and> bit (packed ! j) b) \<and>
     (N = 8 * length packed \<longrightarrow>
        repackOverlayBits_spec (length packed) (unpackOverlayBits packed N) = packed)"
proof (intro conjI allI impI)
  show "length (repackOverlayBits_spec (length packed) (unpackOverlayBits packed N)) = length packed"
    by (rule length_repack)
next
  fix j b assume "j < length packed" "b < (8::nat)"
  then show "bit (repackOverlayBits_spec (length packed) (unpackOverlayBits packed N) ! j) b
          \<longleftrightarrow> 8 * j + b < N \<and> bit (packed ! j) b"
    by (simp add: bit_repack_unpack)
next
  assume full: "N = 8 * length packed"
  show "repackOverlayBits_spec (length packed) (unpackOverlayBits packed N) = packed"
  proof (rule nth_equalityI)
    show "length (repackOverlayBits_spec (length packed) (unpackOverlayBits packed N)) = length packed"
      by (rule length_repack)
  next
    fix j assume "j < length (repackOverlayBits_spec (length packed) (unpackOverlayBits packed N))"
    then have j: "j < length packed" by (simp add: length_repack)
    show "repackOverlayBits_spec (length packed) (unpackOverlayBits packed N) ! j = packed ! j"
    proof (rule bit_eqI)
      fix b
      have "bit (packed ! j) b \<Longrightarrow> b < 8"
        by (auto dest: bit_imp_le_length)
      moreover have "b < 8 \<Longrightarrow> 8 * j + b < N"
        using j full by simp
      ultimately show "bit (repackOverlayBits_spec (length packed) (unpackOverlayBits packed N) ! j) b
          \<longleftrightarrow> bit (packed ! j) b"
        using j by (auto simp add: bit_repack_unpack)
    qed
  qed
qed

theorem repack_unpack_prefix_witness:
  "(16::nat) \<le> 8 * length [255::u8, 129] \<and>
   repackOverlayBits_spec (length [255::u8, 129]) (unpackOverlayBits [255, 129] 16) = [255, 129]"
  using repack_unpack_prefix [of 16 "[255, 129]"] by simp

text \<open>
  The claim as stated fails for \<open>N < 8L\<close>: with the one-byte buffer \<open>[255]\<close> and
  \<open>N = 1\<close> the re-packed byte is \<open>1\<close>, not \<open>255\<close>.
\<close>

theorem repack_unpack_counterexample:
  "(1::nat) \<le> 8 * length [255::u8] \<and>
   repackOverlayBits_spec (length [255::u8]) (unpackOverlayBits [255] 1) \<noteq> [255]"
  by code_simp


section \<open>Properties of the content-tree decoder\<close>

lemma parseContentItem_children:
  assumes "parseContentItem h (Some ds) = Some f"
  shows "fnd_children f =
           (if parseChildItems h (contentItems ds) [] = [] then None
            else Some (parseChildItems h (contentItems ds) []))"
proof -
  obtain val unit ref where iv:
    "itemValue h ds (the (dsString ds ''x0040a040'')) (getConceptName ds) = (val, unit, ref)"
    using prod_cases3 by blast
  from assms have t: "truthy (dsString ds ''x0040a040'')"
    by (simp add: parseContentItem.simps(2) Let_def split: if_splits)
  from assms t iv show ?thesis
    by (auto simp add: parseContentItem.simps(2) Let_def contentItems_def split: option.splits)
qed

lemma parse_invariant:
  "(\<forall>f. parseContentItem h d = Some f \<longrightarrow> childrenAbsentOrNonEmpty f)"
  "(\<forall>c\<in>set acc. childrenAbsentOrNonEmpty c) \<longrightarrow>
     (\<forall>c\<in>set (parseChildItems h its acc). childrenAbsentOrNonEmpty c)"
proof (induction h d and h its acc rule: parseContentItem_parseChildItems.induct)
  case (1 h)
  then show ?case by simp
next
  case (2 h itemDataSet)
  show ?case
  proof (intro allI impI)
    fix f assume f: "parseContentItem h (Some itemDataSet) = Some f"
    then have t: "truthy (dsString itemDataSet ''x0040a040'')"
      by (simp add: parseContentItem.simps(2) Let_def split: if_splits)
    then have nn: "\<not> \<not> truthy (dsString itemDataSet ''x0040a040'')" by simp
    obtain val unit ref where iv:
      "itemValue h itemDataSet (the (dsString itemDataSet ''x0040a040''))
         (getConceptName itemDataSet) = (val, unit, ref)"
      using prod_cases3 by blast
    have ch: "fnd_children f =
           (if parseChildItems h (contentItems itemDataSet) [] = [] then None
            else Some (parseChildItems h (contentItems itemDataSet) []))"
      using f by (rule parseContentItem_children)
    show "childrenAbsentOrNonEmpty f"
    proof (cases "fnd_children f")
      case None
      then show ?thesis by (cases f) simp
    next
      case (Some cs)
      with ch have cs: "cs = parseChildItems h (contentItems itemDataSet) []" "cs \<noteq> []"
        by (auto split: if_splits)
      then obtain contentSequence its where
        el: "elementAt itemDataSet ''x0040a730'' = Some contentSequence" and
        it: "items contentSequence = Some its" and
        ci: "contentItems itemDataSet = its"
        by (auto simp add: contentItems_def split: option.splits)
      have "\<forall>c\<in>set (parseChildItems h its []). childrenAbsentOrNonEmpty c"
        using "2.IH" [OF refl nn refl refl iv [symmetric] refl el it] by simp
      with Some cs ci show ?thesis by (cases f) simp
    qed
  qed
next
  case (3 h children)
  then show ?case by simp
next
  case (4 h childItem rest children)
  show ?case
  proof (cases "parseContentItem h childItem")
    case None
    with "4.IH"(2) show ?thesis by simp
  next
    case (Some childFinding)
    with "4.IH"(1) have "childrenAbsentOrNonEmpty childFinding" by simp
    with "4.IH"(3) [OF Some] Some show ?thesis by simp
  qed
qed

lemma parseChildItems_all_fail:
  "\<forall>c\<in>set its. parseContentItem h c = None \<Longrightarrow> parseChildItems h its acc = acc"
  by (induction its arbitrary: acc) simp_all

text \<open>
  Claim C5. In every finding that \<open>parseContentItem\<close> returns, the \<^verbatim>\<open>children\<close>
  field is absent or a non-empty list, never an empty list, and the same holds for
  every finding nested in it. When the item has a nested content sequence and none of
  its items decodes, the \<^verbatim>\<open>children\<close> field is absent.
\<close>

theorem children_never_empty:
  assumes "parseContentItem h d = Some f"
  shows "fnd_children f \<noteq> Some [] \<and> childrenAbsentOrNonEmpty f \<and>
     (\<forall>ds contentSequence its.
        d = Some ds \<and> elementAt ds ''x0040a730'' = Some contentSequence \<and>
        items contentSequence = Some its \<and>
        (\<forall>c\<in>set its. parseContentItem h c = None) \<longrightarrow> fnd_children f = None)"
proof (intro conjI allI impI)
  from assms show inv: "childrenAbsentOrNonEmpty f"
    using parse_invariant(1) by blast
  then show "fnd_children f \<noteq> Some []"
    by (cases f) auto
next
  fix ds contentSequence its
  assume a: "d = Some ds \<and> elementAt ds ''x0040a730'' = Some contentSequence \<and>
        items contentSequence = Some its \<and>
        (\<forall>c\<in>set its. parseContentItem h c = None)"
  then have "parseChildItems h its [] = []"
    by (simp add: parseChildItems_all_fail)
  moreover from a have "contentItems ds = its"
    by (simp add: contentItems_def)
  ultimately show "fnd_children f = None"
    using a assms parseContentItem_children [of h ds f] by simp
qed

lemma ex_container_decoded:
  "parseContentItem exHost (Some exContainer) =
     Some (Finding ''Finding'' ''Container'' ''CONTAINER'' None None None)"
  by (simp add: parseContentItem.simps(2) exContainer_def dsString_def truthy_def
        getConceptName_def elementAt_def itemValue_def orElse_def Let_def)

theorem children_never_empty_witness:
  "parseContentItem exHost (Some exContainer) =
     Some (Finding ''Finding'' ''Container'' ''CONTAINER'' None None None) \<and>
   elementAt exContainer ''x0040a730'' =
     Some (Element 0 0 (Some [Some (DataSet [] [] [] [] [] [])])) \<and>
   parseContentItem exHost (Some (DataSet [] [] [] [] [] [])) = None \<and>
   fnd_children (Finding ''Finding'' ''Container'' ''CONTAINER'' None None None) = None"
proof -
  have none: "parseContentItem exHost (Some (DataSet [] [] [] [] [] [])) = None"
    by (simp add: parseContentItem.simps(2) dsString_def truthy_def Let_def)
  have el: "elementAt exContainer ''x0040a730'' =
     Some (Element 0 0 (Some [Some (DataSet [] [] [] [] [] [])]))"
    by (simp add: exContainer_def elementAt_def)
  show ?thesis
    using children_never_empty [OF ex_container_decoded] none el
    by (simp add: ex_container_decoded)
qed

section \<open>Properties of the key-object reference resolver\<close>

lemma pushImageReference_append:
  "pushImageReference d acc = acc @ pushImageReference d []"
  by (simp add: pushImageReference_def Let_def split: option.splits)

lemma nestedItemsLoop_concat:
  "nestedItemsLoop its acc =
     acc @ concat (map (\<lambda>item. case item of None \<Rightarrow> [] | Some d \<Rightarrow> pushImageReference d []) its)"
proof (induction its arbitrary: acc)
  case Nil
  then show ?case by simp
next
  case (Cons item its)
  show ?case
  proof (cases item)
    case None
    then show ?thesis by (simp add: Cons.IH)
  next
    case (Some d)
    then show ?thesis
      using pushImageReference_append [of d acc] by (simp add: Cons.IH)
  qed
qed

lemma depth_one:
  "imageLeavesToDepth_spec (Suc 0) d =
     concat (map (\<lambda>item. case item of None \<Rightarrow> [] | Some d \<Rightarrow> pushImageReference d []) (contentItems d))"
proof -
  have "(\<lambda>item. case item of None \<Rightarrow> [] | Some itemDS \<Rightarrow>
            pushImageReference itemDS [] @ imageLeavesToDepth_spec 0 itemDS)
        = (\<lambda>item. case item of None \<Rightarrow> [] | Some d \<Rightarrow> pushImageReference d [])"
    by (auto split: option.splits)
  then show ?thesis by simp
qed

lemma nested_part:
  "(case elementAt d ''x0040a730'' of
      None \<Rightarrow> acc
    | Some nestedContentSeq \<Rightarrow>
        (case items nestedContentSeq of
           None \<Rightarrow> acc
         | Some nestedItems \<Rightarrow> nestedItemsLoop nestedItems acc))
   = acc @ imageLeavesToDepth_spec (Suc 0) d"
  by (simp add: depth_one contentItems_def nestedItemsLoop_concat split: option.splits)

lemma contentItemsLoop_concat:
  "contentItemsLoop its acc =
     acc @ concat (map (\<lambda>item. case item of
                      None \<Rightarrow> []
                    | Some itemDS \<Rightarrow>
                        pushImageReference itemDS [] @ imageLeavesToDepth_spec (Suc 0) itemDS) its)"
proof (induction its arbitrary: acc)
  case Nil
  then show ?case by simp
next
  case (Cons item its)
  show ?case
  proof (cases item)
    case None
    then show ?thesis by (simp add: Cons.IH)
  next
    case (Some d)
    then show ?thesis
      using pushImageReference_append [of d acc]
      by (simp add: Cons.IH Let_def nested_part del: imageLeavesToDepth_spec.simps)
  qed
qed

text \<open>
  Claim C4 (as amended). The key-object reference resolver collects, in encounter
  order, the referenced SOP instance UID of every \<^verbatim>\<open>IMAGE\<close> item at the top
  level of the content sequence and of every \<^verbatim>\<open>IMAGE\<close> item one level below,
  inside the content sequence of a top-level item; it does not descend further.
\<close>

theorem key_images_two_levels:
  "parseReferencedImages_ko ds = imageLeavesToDepth_spec 2 ds"
proof -
  have "imageLeavesToDepth_spec 2 ds = imageLeavesToDepth_spec (Suc (Suc 0)) ds"
    by (simp add: numeral_2_eq_2)
  also have "\<dots> = contentItemsLoop (contentItems ds) []"
    by (simp add: contentItemsLoop_concat del: imageLeavesToDepth_spec.simps(2)
                  add: imageLeavesToDepth_spec.simps(2) [of "Suc 0"])
  also have "\<dots> = parseReferencedImages_ko ds"
    by (simp add: parseReferencedImages_ko_def contentItems_def split: option.splits)
  finally show ?thesis by simp
qed

text \<open>
  The claim as stated fails at depth 3: the reference \<open>1.2.3\<close> of the \<^verbatim>\<open>IMAGE\<close>
  item nested in two containers is not collected, and the whole key-object selection
  is discarded for having no key images.
\<close>

theorem key_images_depth_counterexample:
  "''1.2.3'' \<in> set (imageLeavesToDepth_spec 3 exDeepKO) \<and>
   ''1.2.3'' \<notin> set (parseReferencedImages_ko exDeepKO) \<and>
   parseKO exDeepKO ''deep.dcm'' = None"
  by code_simp


section \<open>Properties of the circle reconstruction\<close>

lemma ieee_ten: "ieeeSingle [0, 0, 0x20, 0x41] = 10"
  by (simp add: ieeeSingle_def Let_def)

lemma ieee_thirteen: "ieeeSingle [0, 0, 0x50, 0x41] = 13"
  by (simp add: ieeeSingle_def Let_def)

lemma ex_circle_decoded:
  "parseGraphicObject exHost exCircle =
     Returns (Some \<lparr> ga_graphicType = ''CIRCLE'', ga_graphicData = [10, 10, 13, 10],
                          ga_textValue = None \<rparr>)"
  by (simp add: parseGraphicObject_def parseGraphicData_def exCircle_def dsString_def
        dsUint16_def dsFloat_def elementAt_def truthy_def orDefault_def mapGraphicType_def
        Let_def graphicDataLoop.simps exHost_def ieee_ten ieee_thirteen)

text \<open>
  Claim C8. For a \<^verbatim>\<open>CIRCLE\<close> annotation with at least four numbers, the first two
  are the centre and the next two a point on the circle: the rendered circle has that
  centre, and its radius is the Euclidean distance between the two points (taken in
  the complex plane). The graphic data \<open>[10,10,13,10]\<close> gives centre \<open>(10,10)\<close> and
  radius \<open>3\<close>.
\<close>

theorem circle_radius:
  assumes "ga_graphicType a = ''CIRCLE''" and "4 \<le> length (ga_graphicData a)"
  shows "AnnotationShape a =
           Some (SvgCircle (ga_graphicData a ! 0) (ga_graphicData a ! 1)
                   (dist (Complex (ga_graphicData a ! 0) (ga_graphicData a ! 1))
                         (Complex (ga_graphicData a ! 2) (ga_graphicData a ! 3)))
                   ''none'')"
proof -
  have "sqrt ((ga_graphicData a ! 2 - ga_graphicData a ! 0)\<^sup>2 +
              (ga_graphicData a ! 3 - ga_graphicData a ! 1)\<^sup>2) =
        dist (Complex (ga_graphicData a ! 0) (ga_graphicData a ! 1))
             (Complex (ga_graphicData a ! 2) (ga_graphicData a ! 3))"
    by (simp add: dist_complex_def cmod_def power2_commute)
  with assms show ?thesis
    by (simp add: AnnotationShape_def Let_def)
qed

theorem circle_radius_witness:
  "parseGraphicObject exHost exCircle =
     Returns (Some \<lparr> ga_graphicType = ''CIRCLE'', ga_graphicData = [10, 10, 13, 10],
                          ga_textValue = None \<rparr>) \<and>
   (4::nat) \<le> length [10::real, 10, 13, 10] \<and>
   AnnotationShape \<lparr> ga_graphicType = ''CIRCLE'', ga_graphicData = [10, 10, 13, 10],
                     ga_textValue = None \<rparr> = Some (SvgCircle 10 10 3 ''none'')"
proof -
  have d: "dist (Complex 10 10) (Complex 13 10) = 3"
    by (simp add: dist_complex_def cmod_def)
  show ?thesis
    using circle_radius [of "\<lparr> ga_graphicType = ''CIRCLE'', ga_graphicData = [10, 10, 13, 10],
                               ga_textValue = None \<rparr>"] d
    by (simp add: ex_circle_decoded)
qed

section \<open>Properties of the loader\<close>

lemma std_fields [simp]:
  "std_series (studyMetadata.extend m (dicomStudy.fields a b c d)) = a"
  "std_reports (studyMetadata.extend m (dicomStudy.fields a b c d)) = b"
  "std_keyObjectSelections (studyMetadata.extend m (dicomStudy.fields a b c d)) = c"
  "std_presentationStates (studyMetadata.extend m (dicomStudy.fields a b c d)) = d"
  "studyMetadata.truncate (studyMetadata.extend m (dicomStudy.fields a b c d)) = m"
  by (simp_all add: studyMetadata.defs dicomStudy.defs)

lemma ser_fields [simp]:
  "ser_images (seriesMetadata.extend m (dicomSeries.fields a)) = a"
  "ser_seriesInstanceUID (seriesMetadata.extend m (dicomSeries.fields a)) = ser_seriesInstanceUID m"
  "ser_seriesNumber (seriesMetadata.extend m (dicomSeries.fields a)) = ser_seriesNumber m"
  "seriesMetadata.truncate (seriesMetadata.extend m (dicomSeries.fields a)) = m"
  by (simp_all add: seriesMetadata.defs dicomSeries.defs)

lemma ingestLoop_append:
  "ingestLoop h (xs @ ys) acc = ingestLoop h ys (ingestLoop h xs acc)"
  by (induction xs arbitrary: acc) simp_all

lemma ingestFile_skip: "parseDicomFile h f = None \<Longrightarrow> ingestFile h f acc = acc"
  by (simp add: ingestFile_def)

lemma failure_kinds:
  assumes "readFile h f = Unreadable \<or> (\<exists>n. readFile h f = Unparsable n) \<or>
     (\<exists>n ds. readFile h f = Parsed n ds \<and>
        (maxFileSize < n \<or> \<not> truthy (dsString ds ''x00080018'') \<or>
         (\<not> isSRFile ds \<and> \<not> isKOFile ds \<and> isPRFile ds \<and> parsePR h ds f = Throws))) \<or>
     parseDicomFile h f = None"
  shows "parseDicomFile h f = None"
  using assms
  by (auto simp add: parseDicomFile_def parseSR_def parseKO_def parsePR_def Let_def
      split: option.splits completion.splits)


lemma load_Some:
  assumes "loadDicomFromFolder h ps = Some st"
  obtains md where
    "studyMetadataLoop h (take 10 ps) = Some md"
    "st = studyMetadata.extend md
            (dicomStudy.fields
               (sortSeries h (sortImages h (organizeLoop (images (ingestLoop h ps emptyAccumulators))
                                          (seriesMap (ingestLoop h ps emptyAccumulators)))))
               (reports (ingestLoop h ps emptyAccumulators))
               (keyObjectSelections (ingestLoop h ps emptyAccumulators))
               (presentationStates (ingestLoop h ps emptyAccumulators)))"
  using assms
  by (auto simp add: loadDicomFromFolder_def Let_def split: if_splits option.splits)

lemma image_series_uid:
  assumes "parseDicomFile h p = Some (ImageResult img)"
    and "parseSeriesMetadata h p = Some meta"
  shows "ser_seriesInstanceUID meta = img_seriesInstanceUID img"
proof (cases "readFile h p")
  case Unreadable
  with assms show ?thesis by (simp add: parseDicomFile_def)
next
  case (Unparsable n)
  with assms show ?thesis by (simp add: parseDicomFile_def)
next
  case (Parsed n ds)
  from assms(2) Parsed have m: "ser_seriesInstanceUID meta = the (dsString ds ''x0020000e'')"
    by (auto simp add: parseSeriesMetadata_def Let_def split: if_splits)
  from assms(1) Parsed have "img_seriesInstanceUID img = the (dsString ds ''x0020000e'')"
    by (auto simp add: parseDicomFile_def Let_def
        split: if_splits option.splits completion.splits)
  with m show ?thesis by simp
qed

lemma parseKO_nonempty: "parseKO ds p = Some ko \<Longrightarrow> ko_keyImages ko \<noteq> []"
  by (auto simp add: parseKO_def Let_def split: if_splits)

lemma parseDicomFile_ko_nonempty:
  "parseDicomFile h p = Some (KeyObjectResult ko) \<Longrightarrow> ko_keyImages ko \<noteq> []"
  by (auto simp add: parseDicomFile_def Let_def dest: parseKO_nonempty
      split: fileContent.splits if_splits option.splits completion.splits)

lemma ingestFile_kos:
  "\<forall>ko\<in>set (keyObjectSelections acc). ko_keyImages ko \<noteq> [] \<Longrightarrow>
   \<forall>ko\<in>set (keyObjectSelections (ingestFile h p acc)). ko_keyImages ko \<noteq> []"
  by (auto simp add: ingestFile_def Let_def dest: parseDicomFile_ko_nonempty
      split: option.splits parseResult.splits)

lemma ingestLoop_kos:
  "\<forall>ko\<in>set (keyObjectSelections acc). ko_keyImages ko \<noteq> [] \<Longrightarrow>
   \<forall>ko\<in>set (keyObjectSelections (ingestLoop h ps acc)). ko_keyImages ko \<noteq> []"
proof (induction ps arbitrary: acc)
  case Nil
  then show ?case by simp
next
  case (Cons p ps)
  show ?case
    unfolding ingestLoop.simps
    by (rule Cons.IH, rule ingestFile_kos, rule Cons.prems)
qed

lemma ingestFile_seriesMap:
  assumes "\<forall>(k, s)\<in>set (seriesMap acc). ser_seriesInstanceUID s = k \<and> ser_images s = []"
  shows "\<forall>(k, s)\<in>set (seriesMap (ingestFile h p acc)). ser_seriesInstanceUID s = k \<and> ser_images s = []"
  using assms
  by (auto simp add: ingestFile_def Let_def dest: image_series_uid
      split: option.splits parseResult.splits)

lemma ingestLoop_seriesMap:
  "\<forall>(k, s)\<in>set (seriesMap acc). ser_seriesInstanceUID s = k \<and> ser_images s = [] \<Longrightarrow>
   \<forall>(k, s)\<in>set (seriesMap (ingestLoop h ps acc)). ser_seriesInstanceUID s = k \<and> ser_images s = []"
proof (induction ps arbitrary: acc)
  case Nil
  then show ?case by simp
next
  case (Cons p ps)
  show ?case
    unfolding ingestLoop.simps
    by (rule Cons.IH, rule ingestFile_seriesMap, rule Cons.prems)
qed

lemma ingestFile_no_key:
  assumes "u \<notin> fst ` set (seriesMap acc)"
    and "\<forall>img. parseDicomFile h p = Some (ImageResult img) \<and> img_seriesInstanceUID img = u
           \<longrightarrow> parseSeriesMetadata h p = None"
  shows "u \<notin> fst ` set (seriesMap (ingestFile h p acc))"
  using assms
  by (auto simp add: ingestFile_def Let_def split: option.splits parseResult.splits)

lemma ingestLoop_no_key:
  assumes "u \<notin> fst ` set (seriesMap acc)"
    and "\<forall>p\<in>set ps. \<forall>img. parseDicomFile h p = Some (ImageResult img) \<and>
           img_seriesInstanceUID img = u \<longrightarrow> parseSeriesMetadata h p = None"
  shows "u \<notin> fst ` set (seriesMap (ingestLoop h ps acc))"
  using assms
proof (induction ps arbitrary: acc)
  case Nil
  then show ?case by simp
next
  case (Cons p ps)
  have "u \<notin> fst ` set (seriesMap (ingestFile h p acc))"
    using Cons.prems by (intro ingestFile_no_key) simp_all
  then show ?case
    using Cons.prems by (simp add: Cons.IH)
qed

lemma map_fst_map_entry: "map fst (AList.map_entry k f m) = map fst m"
  by (induction m) auto

lemma set_map_entry:
  "(k', s) \<in> set (AList.map_entry k f m) \<Longrightarrow>
   (k', s) \<in> set m \<or> (k' = k \<and> (\<exists>s0. (k, s0) \<in> set m \<and> s = f s0))"
  by (induction m) (auto split: if_splits)

lemma organizeLoop_keys: "map fst (organizeLoop imgs m) = map fst m"
  by (induction imgs arbitrary: m) (auto simp add: map_fst_map_entry split: option.splits)

lemma organizeLoop_belong:
  assumes "\<forall>(k, s)\<in>set m. ser_seriesInstanceUID s = k \<and>
             (\<forall>img\<in>set (ser_images s). img_seriesInstanceUID img = k)"
  shows "\<forall>(k, s)\<in>set (organizeLoop imgs m). ser_seriesInstanceUID s = k \<and>
             (\<forall>img\<in>set (ser_images s). img_seriesInstanceUID img = k)"
  using assms
proof (induction imgs arbitrary: m)
  case Nil
  then show ?case by simp
next
  case (Cons i imgs)
  show ?case
  proof (cases "map_of m (img_seriesInstanceUID i)")
    case None
    then show ?thesis using Cons by simp
  next
    case (Some series)
    have "\<forall>(k, s)\<in>set (AList.map_entry (img_seriesInstanceUID i)
               (\<lambda>s. s\<lparr> ser_images := ser_images s @ [i] \<rparr>) m).
            ser_seriesInstanceUID s = k \<and>
             (\<forall>img\<in>set (ser_images s). img_seriesInstanceUID img = k)"
      using Cons.prems by (fastforce dest!: set_map_entry)
    then show ?thesis using Some Cons.IH by simp
  qed
qed

lemma set_applyOrder: "set (applyOrder order xs) = set xs"
proof (cases "sort order = [0..<length xs]")
  case True
  then have "set order = {0..<length xs}"
    by (metis set_sort set_upt)
  then have "set (map (\<lambda>i. xs ! i) order) = set xs"
    using nth_image [of "length xs" xs] by simp
  with True show ?thesis by (simp add: applyOrder_def)
next
  case False
  then show ?thesis by (simp add: applyOrder_def)
qed

lemma set_sortByKey: "set (sortByKey h key xs) = set xs"
  by (simp add: sortByKey_def set_applyOrder)

lemma mset_applyOrder: "mset (applyOrder order xs) = mset xs"
proof (cases "sort order = [0..<length xs]")
  case True
  have "mset order = mset (sort order)" by simp
  with True have "mset order = mset [0..<length xs]" by simp
  then have "mset (map (\<lambda>i. xs ! i) order) = mset (map (\<lambda>i. xs ! i) [0..<length xs])"
    by (metis mset_map)
  then have "mset (map (\<lambda>i. xs ! i) order) = mset xs"
    by (simp add: map_nth)
  with True show ?thesis by (simp add: applyOrder_def)
next
  case False
  then show ?thesis by (simp add: applyOrder_def)
qed

text \<open>A sort pass rearranges: it neither drops nor adds an element.\<close>

lemma mset_sortByKey: "mset (sortByKey h key xs) = mset xs"
  by (simp add: sortByKey_def mset_applyOrder)

lemma sort_passes_permute:
  "mset (sortSeries h m) = mset (map snd m)"
  "map (\<lambda>(k, s). (k, mset (ser_images s))) (sortImages h m) =
   map (\<lambda>(k, s). (k, mset (ser_images s))) m"
  by (simp_all add: sortSeries_def sortImages_def mset_sortByKey split_def)

lemma sortByKey_sorted:
  "NaN \<notin> set (map key xs) \<Longrightarrow> sorted (map (\<lambda>x. numberOf (key x)) (sortByKey h key xs))"
  by (simp add: sortByKey_def)

lemma sortImages_belong:
  assumes "\<forall>(k, s)\<in>set m. ser_seriesInstanceUID s = k \<and>
             (\<forall>img\<in>set (ser_images s). img_seriesInstanceUID img = k)"
  shows "\<forall>(k, s)\<in>set (sortImages h m). ser_seriesInstanceUID s = k \<and>
             (\<forall>img\<in>set (ser_images s). img_seriesInstanceUID img = k)"
  using assms by (auto simp add: sortImages_def set_sortByKey)

lemma map_fst_sortImages: "map fst (sortImages h m) = map fst m"
  by (induction m) (auto simp add: sortImages_def)

lemma set_sortSeries: "set (sortSeries h m) = snd ` set m"
  by (simp add: sortSeries_def set_sortByKey)

lemma sortSeries_empty: "sortSeries h m = [] \<longleftrightarrow> m = []"
  using set_sortSeries [of h m] by (metis image_is_empty set_empty)

lemma studyMetadataLoop_None:
  "studyMetadataLoop h ps = None \<longleftrightarrow> (\<forall>p\<in>set ps. parseStudyMetadata h p = None)"
  by (induction ps) (auto split: option.splits)

lemma studyMetadataLoop_Some:
  "studyMetadataLoop h ps = Some md \<Longrightarrow>
   \<exists>i<length ps. parseStudyMetadata h (ps ! i) = Some md \<and>
                   (\<forall>j<i. parseStudyMetadata h (ps ! j) = None)"
proof (induction ps)
  case Nil
  then show ?case by simp
next
  case (Cons p ps)
  show ?case
  proof (cases "parseStudyMetadata h p")
    case (Some m)
    with Cons.prems have "parseStudyMetadata h ((p # ps) ! 0) = Some md" by simp
    then show ?thesis by (intro exI [of _ 0]) simp
  next
    case None
    with Cons obtain i where i: "i < length ps" "parseStudyMetadata h (ps ! i) = Some md"
      "\<forall>j<i. parseStudyMetadata h (ps ! j) = None"
      by auto
    have "\<forall>j<Suc i. parseStudyMetadata h ((p # ps) ! j) = None"
      using None i(3) by (auto simp add: less_Suc_eq_0_disj)
    with i show ?thesis by (intro exI [of _ "Suc i"]) simp
  qed
qed

lemma organizeLoop_empty: "organizeLoop imgs m = [] \<longleftrightarrow> m = []"
  using organizeLoop_keys [of imgs m] by (metis map_is_Nil_conv)

lemma sortImages_empty: "sortImages h m = [] \<longleftrightarrow> m = []"
  by (simp add: sortImages_def)

lemma load_Some_iff:
  "loadDicomFromFolder h ps \<noteq> None \<longleftrightarrow>
     ps \<noteq> [] \<and> studyMetadataLoop h (take 10 ps) \<noteq> None \<and>
     seriesMap (ingestLoop h ps emptyAccumulators) \<noteq> []"
  by (auto simp add: loadDicomFromFolder_def Let_def sortSeries_empty sortImages_empty
        organizeLoop_empty split: option.splits)

subsection \<open>The loader on the example inputs\<close>

lemma overlaysLoop_no_planes:
  "uint16Tab ds = [] \<Longrightarrow> overlaysLoop h ds grp ovs = Some ovs"
proof (induction h ds grp ovs rule: overlaysLoop.induct)
  case (1 h ds grp overlays)
  then show ?case
    by (subst overlaysLoop.simps) (simp add: dsUint16_def orDefault_def Let_def)
qed

lemma parseOverlays_no_planes: "uint16Tab ds = [] \<Longrightarrow> parseOverlays h ds = Some []"
  by (simp add: parseOverlays_def overlaysLoop_no_planes)

lemmas ex_defs = exHost_def exImageA_def exImageB_def exImageC_def exImageD_def exKO_def
  exNumbered_def
  parseDicomFile_def isSRFile_def isKOFile_def isPRFile_def KO_SOP_CLASS_def
  SR_SOP_CLASSES_def PR_SOP_CLASSES_def
  dsString_def dsIntString_def dsUint16_def dsFloatString_def elementAt_def truthy_def
  orDefault_def maxFileSize_def parseOverlays_no_planes Let_def imgOf_def

lemma ex_file_a: "parseDicomFile exHost ''a'' = Some (ImageResult (imgOf ''1.1'' ''S1'' (Num 2) ''a''))"
  by (simp add: ex_defs)

lemma ex_file_b: "parseDicomFile exHost ''b'' = Some (ImageResult (imgOf ''1.2'' ''S1'' (Num 1) ''b''))"
  by (simp add: ex_defs)

lemma ex_file_c: "parseDicomFile exHost ''c'' = Some (ImageResult (imgOf ''1.3'' ''S2'' (Num 1) ''c''))"
  by (simp add: ex_defs)

lemma ex_file_d: "parseDicomFile exHost ''d'' = Some (ImageResult (imgOf ''1.4'' ''S3'' (Num 1) ''d''))"
  by (simp add: ex_defs)

lemma ex_file_k:
  "parseDicomFile exHost ''k'' =
     Some (KeyObjectResult \<lparr> ko_sopInstanceUID = ''2.1'', ko_title = ''Key Images'',
                              ko_description = None, ko_keyImages = [''1.1''] \<rparr>)"
  by (simp add: ex_defs parseKO_def getKOTitle_def getKODescription_def
        parseReferencedImages_ko_def pushImageReference_def orElse_def)

lemma ex_file_x: "parseDicomFile exHost ''x'' = None"
  by (simp add: ex_defs)

lemma ex_deep_ko: "parseKO exDeepKO ''e'' = None"
  by code_simp

lemma ex_file_e: "parseDicomFile exHost ''e'' = None"
proof -
  have "readFile exHost ''e'' = Parsed 10 exDeepKO"
    by (simp add: exHost_def)
  moreover have "\<not> isSRFile exDeepKO" "isKOFile exDeepKO"
    by (simp_all add: exDeepKO_def isSRFile_def isKOFile_def KO_SOP_CLASS_def
          SR_SOP_CLASSES_def dsString_def truthy_def Let_def)
  ultimately show ?thesis
    by (simp add: parseDicomFile_def maxFileSize_def ex_deep_ko)
qed

lemmas ex_meta_defs = exHost_def exImageA_def exImageB_def exImageC_def exImageD_def
  exNumbered_def
  parseSeriesMetadata_def parseStudyMetadata_def dsString_def dsIntString_def truthy_def
  orDefault_def Let_def serOf_def

lemma ex_series_a: "parseSeriesMetadata exHost ''a'' = Some (serOf ''S1'' (Num 5))"
  by (simp add: ex_meta_defs)

lemma ex_series_c: "parseSeriesMetadata exHost ''c'' = Some (serOf ''S2'' (Num 3))"
  by (simp add: ex_meta_defs)

lemma ex_series_d: "parseSeriesMetadata exHost ''d'' = None"
  by (simp add: ex_meta_defs)

lemma ex_study_a: "parseStudyMetadata exHost ''a'' \<noteq> None"
  by (simp add: ex_meta_defs)

lemma ex_study_x: "parseStudyMetadata exHost ''x'' = None"
  by (simp add: ex_meta_defs)

lemma ex_study_d: "parseStudyMetadata exHost ''d'' = None"
  by (simp add: ex_meta_defs)

lemmas ex_files = ex_file_a ex_file_b ex_file_c ex_file_d ex_file_k ex_file_x ex_file_e
  ex_series_a ex_series_c ex_series_d

lemma ex_ingest:
  "ingestLoop exHost exPaths emptyAccumulators =
     \<lparr> images = [imgOf ''1.1'' ''S1'' (Num 2) ''a'', imgOf ''1.2'' ''S1'' (Num 1) ''b'',
                 imgOf ''1.3'' ''S2'' (Num 1) ''c'', imgOf ''1.4'' ''S3'' (Num 1) ''d''],
       reports = [],
       keyObjectSelections =
         [\<lparr> ko_sopInstanceUID = ''2.1'', ko_title = ''Key Images'',
             ko_description = None, ko_keyImages = [''1.1''] \<rparr>],
       presentationStates = [],
       seriesMap = [(''S1'', seriesMetadata.extend (serOf ''S1'' (Num 5)) (dicomSeries.fields [])),
                    (''S2'', seriesMetadata.extend (serOf ''S2'' (Num 3)) (dicomSeries.fields []))] \<rparr>"
  by (simp add: exPaths_def ingestFile_def ex_files emptyAccumulators_def imgOf_def Let_def)


lemma ex_header: "studyMetadataLoop exHost (take 10 exPaths) \<noteq> None"
  using ex_study_a by (auto simp add: exPaths_def)

lemma ex_load_some: "loadDicomFromFolder exHost exPaths \<noteq> None"
  unfolding load_Some_iff using ex_header by (simp add: ex_ingest) (simp add: exPaths_def)

lemma ex_load_series:
  "map (\<lambda>s. (ser_seriesInstanceUID s, ser_seriesNumber s,
              map (\<lambda>i. (img_sopInstanceUID i, img_instanceNumber i)) (ser_images s)))
       (std_series (the (loadDicomFromFolder exHost exPaths))) =
   [(''S2'', Num 3, [(''1.3'', Num 1)]), (''S1'', Num 5, [(''1.2'', Num 1), (''1.1'', Num 2)])]"
proof -
  from ex_load_some obtain st where st: "loadDicomFromFolder exHost exPaths = Some st"
    by auto
  then have "std_series st =
      sortSeries exHost (sortImages exHost
        (organizeLoop (images (ingestLoop exHost exPaths emptyAccumulators))
                      (seriesMap (ingestLoop exHost exPaths emptyAccumulators))))"
    by (rule load_Some) simp
  then show ?thesis
    unfolding st ex_ingest
    by (simp add: sortSeries_def sortImages_def sortByKey_def numberOf_def imgOf_def serOf_def
          seriesMetadata.defs dicomSeries.defs)
qed

lemma ex_load_kos:
  "map ko_keyImages (std_keyObjectSelections (the (loadDicomFromFolder exHost exPaths))) =
     [[''1.1'']]"
proof -
  from ex_load_some obtain st where st: "loadDicomFromFolder exHost exPaths = Some st"
    by auto
  then have "std_keyObjectSelections st =
      keyObjectSelections (ingestLoop exHost exPaths emptyAccumulators)"
    by (rule load_Some) simp
  then show ?thesis
    unfolding st ex_ingest by simp
qed

lemma ex_load_some_without:
  "loadDicomFromFolder exHost ([''a'', ''b''] @ [''c'', ''d'', ''k'', ''e'']) \<noteq> None"
proof -
  have eq: "ingestLoop exHost ([''a'', ''b''] @ [''c'', ''d'', ''k'', ''e'']) emptyAccumulators =
            ingestLoop exHost exPaths emptyAccumulators"
    using ingestFile_skip [OF ex_file_x] by (simp add: exPaths_def)
  have "studyMetadataLoop exHost (take 10 ([''a'', ''b''] @ [''c'', ''d'', ''k'', ''e''])) \<noteq> None"
    using ex_study_a by auto
  then show ?thesis
    unfolding load_Some_iff eq by (simp add: ex_ingest)
qed

text \<open>The truncated presentation state throws inside \<open>parsePR\<close> and is skipped.\<close>

lemma ex_truncated_throws: "parsePR exHost exTruncatedPR ''t'' = Throws"
  by (simp add: parsePR_def exTruncatedPR_def parseReferencedImages_pr_def parseVOILUT_def
        parseGraphicAnnotations_def parseGraphicObject_def parseGraphicData_def
        graphicDataLoop.simps dsFloat_def dsString_def dsUint16_def elementAt_def
        truthy_def orDefault_def Let_def)

lemma ex_file_t: "parseDicomFile exHost ''t'' = None"
proof -
  have "readFile exHost ''t'' = Parsed 10 exTruncatedPR"
    by (simp add: exHost_def)
  moreover have "\<not> isSRFile exTruncatedPR" "\<not> isKOFile exTruncatedPR" "isPRFile exTruncatedPR"
    by (simp_all add: exTruncatedPR_def isSRFile_def isKOFile_def isPRFile_def KO_SOP_CLASS_def
          SR_SOP_CLASSES_def PR_SOP_CLASSES_def dsString_def truthy_def Let_def)
  ultimately show ?thesis
    by (simp add: parseDicomFile_def maxFileSize_def ex_truncated_throws)
qed

text \<open>The four files with the instance numbers 3, \<^verbatim>\<open>NaN\<close>, 1, 2.\<close>

lemma ex_file_n:
  "parseDicomFile exHost ''n1'' = Some (ImageResult (imgOf ''9.1'' ''S9'' (Num 3) ''n1''))"
  "parseDicomFile exHost ''n2'' = Some (ImageResult (imgOf ''9.2'' ''S9'' NaN ''n2''))"
  "parseDicomFile exHost ''n3'' = Some (ImageResult (imgOf ''9.3'' ''S9'' (Num 1) ''n3''))"
  "parseDicomFile exHost ''n4'' = Some (ImageResult (imgOf ''9.4'' ''S9'' (Num 2) ''n4''))"
  by (simp_all add: ex_defs)

lemma ex_series_n: "parseSeriesMetadata exHost ''n1'' = Some (serOf ''S9'' (Num 9))"
  by (simp add: ex_meta_defs)

lemma ex_study_n: "parseStudyMetadata exHost ''n1'' \<noteq> None"
  by (simp add: ex_meta_defs)

lemma ex_ingest_nan:
  "ingestLoop exHost exNaNPaths emptyAccumulators =
     \<lparr> images = [imgOf ''9.1'' ''S9'' (Num 3) ''n1'', imgOf ''9.2'' ''S9'' NaN ''n2'',
                 imgOf ''9.3'' ''S9'' (Num 1) ''n3'', imgOf ''9.4'' ''S9'' (Num 2) ''n4''],
       reports = [], keyObjectSelections = [], presentationStates = [],
       seriesMap = [(''S9'', seriesMetadata.extend (serOf ''S9'' (Num 9)) (dicomSeries.fields []))] \<rparr>"
  by (simp add: exNaNPaths_def ingestFile_def ex_file_n ex_series_n emptyAccumulators_def
        imgOf_def Let_def)

lemma ex_load_nan:
  "loadDicomFromFolder exHost exNaNPaths \<noteq> None \<and>
   map (\<lambda>s. map img_instanceNumber (ser_images s))
       (std_series (the (loadDicomFromFolder exHost exNaNPaths))) =
     [[Num 3, NaN, Num 1, Num 2]]"
proof -
  have "studyMetadataLoop exHost (take 10 exNaNPaths) \<noteq> None"
    using ex_study_n by (auto simp add: exNaNPaths_def)
  then have some: "loadDicomFromFolder exHost exNaNPaths \<noteq> None"
    unfolding load_Some_iff by (simp add: ex_ingest_nan) (simp add: exNaNPaths_def)
  then obtain st where st: "loadDicomFromFolder exHost exNaNPaths = Some st"
    by auto
  then have series: "std_series st =
      sortSeries exHost (sortImages exHost
        (organizeLoop (images (ingestLoop exHost exNaNPaths emptyAccumulators))
                      (seriesMap (ingestLoop exHost exNaNPaths emptyAccumulators))))"
    by (rule load_Some) simp
  have order: "sort [0..<4] = [0..<4::nat]"
    by (simp add: sorted_sort_id)
  have four: "[0..<4::nat] = [0, 1, 2, 3]"
    by (simp add: upt_rec)
  have "map (\<lambda>s. map img_instanceNumber (ser_images s)) (std_series st) =
          [[Num 3, NaN, Num 1, Num 2]]"
    unfolding series ex_ingest_nan
    by (simp add: sortSeries_def sortImages_def sortByKey_def numberOf_def applyOrder_def
          exHost_def imgOf_def serOf_def seriesMetadata.defs dicomSeries.defs order four)
  with some st show ?thesis by simp
qed

text \<open>Ten unparsable files ahead of the image \<open>a\<close>, and nine.\<close>

lemma ex_load_ten_failing:
  "loadDicomFromFolder exHost
     ([''x'', ''x'', ''x'', ''x'', ''x'', ''x'', ''x'', ''x'', ''x''] @ ''x'' # [''a'']) = None"
  by (simp add: loadDicomFromFolder_def ex_study_x)

lemma ex_load_nine_failing:
  "loadDicomFromFolder exHost
     ([''x'', ''x'', ''x'', ''x'', ''x'', ''x'', ''x'', ''x'', ''x''] @ [''a'']) \<noteq> None"
proof -
  have "studyMetadataLoop exHost
          (take 10 ([''x'', ''x'', ''x'', ''x'', ''x'', ''x'', ''x'', ''x'', ''x''] @ [''a''])) \<noteq> None"
    using ex_study_a by (auto simp add: ex_study_x)
  then show ?thesis
    unfolding load_Some_iff
    by (simp add: ingestFile_def ex_file_x ex_file_a ex_series_a emptyAccumulators_def Let_def)
qed

subsection \<open>Ordering\<close>

text \<open>
  When no series number and no instance number is \<^verbatim>\<open>NaN\<close>, the two sort passes
  leave the series in non-decreasing order of series number and the images of every
  series in non-decreasing order of instance number.
\<close>

lemma sort_passes_when_numeric:
  assumes "loadDicomFromFolder h filePaths = Some st"
    and "\<forall>s\<in>set (std_series st). ser_seriesNumber s \<noteq> NaN \<and>
           (\<forall>i\<in>set (ser_images s). img_instanceNumber i \<noteq> NaN)"
  shows "sorted (map (\<lambda>s. numberOf (ser_seriesNumber s)) (std_series st)) \<and>
     (\<forall>s\<in>set (std_series st).
        sorted (map (\<lambda>i. numberOf (img_instanceNumber i)) (ser_images s)))"
proof (intro conjI ballI)
  let ?acc = "ingestLoop h filePaths emptyAccumulators"
  let ?org = "organizeLoop (images ?acc) (seriesMap ?acc)"
  from assms(1) have series: "std_series st = sortSeries h (sortImages h ?org)"
    by (rule load_Some) simp
  have "set (std_series st) = set (map snd (sortImages h ?org))"
    by (simp add: series set_sortSeries)
  with assms(2) have "NaN \<notin> set (map ser_seriesNumber (map snd (sortImages h ?org)))"
    by auto
  then show "sorted (map (\<lambda>s. numberOf (ser_seriesNumber s)) (std_series st))"
    unfolding series sortSeries_def by (rule sortByKey_sorted)
next
  let ?acc = "ingestLoop h filePaths emptyAccumulators"
  let ?org = "organizeLoop (images ?acc) (seriesMap ?acc)"
  fix s assume s: "s \<in> set (std_series st)"
  from assms(1) have series: "std_series st = sortSeries h (sortImages h ?org)"
    by (rule load_Some) simp
  with s obtain k s0 where
    s0: "s = s0\<lparr> ser_images := sortByKey h img_instanceNumber (ser_images s0) \<rparr>"
    by (auto simp add: set_sortSeries sortImages_def)
  from assms(2) s have "\<forall>i\<in>set (ser_images s). img_instanceNumber i \<noteq> NaN"
    by blast
  then have "NaN \<notin> set (map img_instanceNumber (ser_images s0))"
    by (auto simp add: s0 set_sortByKey)
  then have "sorted (map (\<lambda>i. numberOf (img_instanceNumber i))
                 (sortByKey h img_instanceNumber (ser_images s0)))"
    by (rule sortByKey_sorted)
  then show "sorted (map (\<lambda>i. numberOf (img_instanceNumber i)) (ser_images s))"
    by (simp add: s0)
qed

text \<open>
  Claim C1 says that in the returned study the images of every series are in
  non-decreasing order of instance number (and the series in non-decreasing order of
  series number). The program breaks this at the four files \<open>n1\<close>, \<open>n2\<close>, \<open>n3\<close>,
  \<open>n4\<close> of one series with the instance numbers 3, \<^verbatim>\<open>NaN\<close>, 1, 2: a blank
  instance number is \<^verbatim>\<open>NaN\<close>, which \<^verbatim>\<open>?? 0\<close> does not replace, the comparator
  returns \<^verbatim>\<open>NaN\<close>, and the sort pass leaves the images in the order 3, \<^verbatim>\<open>NaN\<close>,
  1, 2, with 3 ahead of 1.
\<close>

theorem images_unsorted_with_nan:
  "loadDicomFromFolder exHost exNaNPaths \<noteq> None \<and>
   map (\<lambda>s. map img_instanceNumber (ser_images s))
       (std_series (the (loadDicomFromFolder exHost exNaNPaths))) =
     [[Num 3, NaN, Num 1, Num 2]]"
  using ex_load_nan by simp

subsection \<open>Per-file failures\<close>

text \<open>
  Claim C2 (as amended). A file that fails (the read is rejected, the parse throws,
  the file exceeds the size limit, the SOP instance UID is missing, the decoding of a
  presentation state throws, or \<open>parseDicomFile\<close> returns \<^verbatim>\<open>null\<close> for any other
  reason) is skipped by the ingest loop: the images, reports, key-object selections,
  presentation states and series accumulated from the other files are those of the
  file list without that file, from any starting accumulators, and no exception
  leaves the loader. The outcome of the load can still change, because the failing
  file takes one of the ten positions of the header scan. When one of the first ten
  paths of the list, the failing file counted, yields a study identifier and the load
  without the failing file returns a study, the load with it returns a study with the
  same series, reports, key-object selections and presentation states.
\<close>

theorem failing_file_is_skipped:
  assumes "readFile h f = Unreadable \<or> (\<exists>n. readFile h f = Unparsable n) \<or>
     (\<exists>n ds. readFile h f = Parsed n ds \<and>
        (maxFileSize < n \<or> \<not> truthy (dsString ds ''x00080018'') \<or>
         (\<not> isSRFile ds \<and> \<not> isKOFile ds \<and> isPRFile ds \<and> parsePR h ds f = Throws))) \<or>
     parseDicomFile h f = None"
  shows "parseDicomFile h f = None \<and>
     ingestLoop h (xs @ f # ys) acc = ingestLoop h (xs @ ys) acc \<and>
     (\<forall>st st'. loadDicomFromFolder h (xs @ f # ys) = Some st \<and>
                loadDicomFromFolder h (xs @ ys) = Some st' \<longrightarrow>
        std_series st = std_series st' \<and> std_reports st = std_reports st' \<and>
        std_keyObjectSelections st = std_keyObjectSelections st' \<and>
        std_presentationStates st = std_presentationStates st') \<and>
     (\<forall>st'. loadDicomFromFolder h (xs @ ys) = Some st' \<and>
            (\<exists>p\<in>set (take 10 (xs @ f # ys)). parseStudyMetadata h p \<noteq> None) \<longrightarrow>
        (\<exists>st. loadDicomFromFolder h (xs @ f # ys) = Some st \<and>
           std_series st = std_series st' \<and> std_reports st = std_reports st' \<and>
           std_keyObjectSelections st = std_keyObjectSelections st' \<and>
           std_presentationStates st = std_presentationStates st'))"
proof -
  from assms have none: "parseDicomFile h f = None"
    by (rule failure_kinds)
  have eq: "ingestLoop h (xs @ f # ys) a = ingestLoop h (xs @ ys) a" for a
    by (simp add: ingestLoop_append ingestFile_skip [OF none])
  have same: "std_series st = std_series st' \<and> std_reports st = std_reports st' \<and>
        std_keyObjectSelections st = std_keyObjectSelections st' \<and>
        std_presentationStates st = std_presentationStates st'"
    if "loadDicomFromFolder h (xs @ f # ys) = Some st"
      and "loadDicomFromFolder h (xs @ ys) = Some st'" for st st'
    using load_Some [OF that(1)] load_Some [OF that(2)]
    by (metis eq std_fields(1-4))
  have returns: "\<exists>st. loadDicomFromFolder h (xs @ f # ys) = Some st"
    if without: "loadDicomFromFolder h (xs @ ys) = Some st'"
      and header: "\<exists>p\<in>set (take 10 (xs @ f # ys)). parseStudyMetadata h p \<noteq> None" for st'
  proof -
    from without have "seriesMap (ingestLoop h (xs @ ys) emptyAccumulators) \<noteq> []"
      using load_Some_iff [of h "xs @ ys"] by simp
    then have "seriesMap (ingestLoop h (xs @ f # ys) emptyAccumulators) \<noteq> []"
      unfolding eq .
    moreover from header obtain p where
      "p \<in> set (take 10 (xs @ f # ys))" "parseStudyMetadata h p \<noteq> None"
      by (rule bexE)
    then have "studyMetadataLoop h (take 10 (xs @ f # ys)) \<noteq> None"
      unfolding studyMetadataLoop_None by (intro notI) (drule bspec, assumption, simp)
    ultimately have "loadDicomFromFolder h (xs @ f # ys) \<noteq> None"
      using load_Some_iff [of h "xs @ f # ys"] by simp
    then show ?thesis by auto
  qed
  from none eq same returns show ?thesis by blast
qed

theorem failing_file_is_skipped_witness:
  "parsePR exHost exTruncatedPR ''t'' = Throws \<and>
   parseDicomFile exHost ''t'' = None \<and>
   ingestLoop exHost ([''a'', ''b''] @ ''t'' # [''c'', ''d'', ''k'', ''e'']) emptyAccumulators =
   ingestLoop exHost ([''a'', ''b''] @ [''c'', ''d'', ''k'', ''e'']) emptyAccumulators \<and>
   loadDicomFromFolder exHost ([''a'', ''b''] @ [''c'', ''d'', ''k'', ''e'']) \<noteq> None \<and>
   parseStudyMetadata exHost ''a'' \<noteq> None \<and>
   loadDicomFromFolder exHost ([''a'', ''b''] @ ''t'' # [''c'', ''d'', ''k'', ''e'']) \<noteq> None \<and>
   std_series (the (loadDicomFromFolder exHost
                      ([''a'', ''b''] @ ''t'' # [''c'', ''d'', ''k'', ''e'']))) =
   std_series (the (loadDicomFromFolder exHost ([''a'', ''b''] @ [''c'', ''d'', ''k'', ''e''])))"
proof -
  from ex_load_some_without obtain st' where
    st': "loadDicomFromFolder exHost ([''a'', ''b''] @ [''c'', ''d'', ''k'', ''e'']) = Some st'"
    by auto
  have header: "\<exists>p\<in>set (take 10 ([''a'', ''b''] @ ''t'' # [''c'', ''d'', ''k'', ''e''])).
                  parseStudyMetadata exHost p \<noteq> None"
    using ex_study_a by simp
  from failing_file_is_skipped [of exHost "''t''" "[''a'', ''b'']" "[''c'', ''d'', ''k'', ''e'']"
         emptyAccumulators] ex_file_t
  have skip: "ingestLoop exHost ([''a'', ''b''] @ ''t'' # [''c'', ''d'', ''k'', ''e''])
                emptyAccumulators =
              ingestLoop exHost ([''a'', ''b''] @ [''c'', ''d'', ''k'', ''e'']) emptyAccumulators"
    and ret: "\<forall>st'. loadDicomFromFolder exHost ([''a'', ''b''] @ [''c'', ''d'', ''k'', ''e'']) = Some st' \<and>
            (\<exists>p\<in>set (take 10 ([''a'', ''b''] @ ''t'' # [''c'', ''d'', ''k'', ''e''])).
                parseStudyMetadata exHost p \<noteq> None) \<longrightarrow>
        (\<exists>st. loadDicomFromFolder exHost ([''a'', ''b''] @ ''t'' # [''c'', ''d'', ''k'', ''e'']) = Some st \<and>
           std_series st = std_series st' \<and> std_reports st = std_reports st' \<and>
           std_keyObjectSelections st = std_keyObjectSelections st' \<and>
           std_presentationStates st = std_presentationStates st')"
    by blast+
  from ret st' header obtain st where
    st: "loadDicomFromFolder exHost ([''a'', ''b''] @ ''t'' # [''c'', ''d'', ''k'', ''e'']) = Some st"
      "std_series st = std_series st'"
    by blast
  from skip st st' show ?thesis
    using ex_truncated_throws ex_file_t ex_study_a
    by (simp del: ingestLoop.simps append.simps)
qed

text \<open>
  The claim as stated fails: a failing file is not merely skipped when it is one of
  the first ten. With nine unparsable files ahead of the image \<open>a\<close> the load returns a
  study; with a tenth unparsable file ahead of \<open>a\<close> it returns \<^verbatim>\<open>null\<close>, and the
  image of \<open>a\<close> is lost with it.
\<close>

theorem failing_file_counterexample:
  "parseDicomFile exHost ''x'' = None \<and>
   loadDicomFromFolder exHost
     ([''x'', ''x'', ''x'', ''x'', ''x'', ''x'', ''x'', ''x'', ''x''] @ ''x'' # [''a'']) = None \<and>
   loadDicomFromFolder exHost
     ([''x'', ''x'', ''x'', ''x'', ''x'', ''x'', ''x'', ''x'', ''x''] @ [''a'']) \<noteq> None"
  using ex_file_x ex_load_ten_failing ex_load_nine_failing by blast

subsection \<open>The study header\<close>

text \<open>
  Claim C6. Only the first ten paths are asked for study metadata. When none of
  them yields a study instance UID the load returns \<^verbatim>\<open>null\<close>, whatever the later
  files contain. When the load returns a study, its study-level fields are exactly
  the metadata of the first of the first ten files that yields some; no other file
  contributes to them.
\<close>

theorem study_header_from_first_ten:
  "((\<forall>p\<in>set (take 10 filePaths). parseStudyMetadata h p = None) \<longrightarrow>
      loadDicomFromFolder h filePaths = None) \<and>
   (loadDicomFromFolder h filePaths = Some st \<longrightarrow>
      (\<exists>i<min 10 (length filePaths).
          parseStudyMetadata h (filePaths ! i) = Some (studyMetadata.truncate st) \<and>
          (\<forall>j<i. parseStudyMetadata h (filePaths ! j) = None)))"
proof (intro conjI impI)
  assume "\<forall>p\<in>set (take 10 filePaths). parseStudyMetadata h p = None"
  then have "studyMetadataLoop h (take 10 filePaths) = None"
    by (simp only: studyMetadataLoop_None)
  then show "loadDicomFromFolder h filePaths = None"
    by (simp add: loadDicomFromFolder_def)
next
  assume "loadDicomFromFolder h filePaths = Some st"
  then obtain md where md: "studyMetadataLoop h (take 10 filePaths) = Some md"
    and tr: "studyMetadata.truncate st = md"
    by (rule load_Some) simp
  from studyMetadataLoop_Some [OF md] obtain i where
    i: "i < length (take 10 filePaths)"
      "parseStudyMetadata h (take 10 filePaths ! i) = Some md"
      "\<forall>j<i. parseStudyMetadata h (take 10 filePaths ! j) = None"
    by blast
  from i(1) have lt: "i < min 10 (length filePaths)" by simp
  moreover from i(2) lt have "parseStudyMetadata h (filePaths ! i) = Some md" by simp
  moreover from i(3) lt have "\<forall>j<i. parseStudyMetadata h (filePaths ! j) = None" by simp
  ultimately show "\<exists>i<min 10 (length filePaths).
          parseStudyMetadata h (filePaths ! i) = Some (studyMetadata.truncate st) \<and>
          (\<forall>j<i. parseStudyMetadata h (filePaths ! j) = None)"
    using tr by blast
qed

theorem study_header_from_first_ten_witness:
  "parseStudyMetadata exHost ''a'' \<noteq> None \<and>
   loadDicomFromFolder exHost (replicate 10 ''x'' @ [''a'']) = None \<and>
   loadDicomFromFolder exHost exPaths \<noteq> None \<and>
   parseStudyMetadata exHost (exPaths ! 0) =
     Some (studyMetadata.truncate (the (loadDicomFromFolder exHost exPaths)))"
proof -
  have "\<forall>p\<in>set (take 10 (replicate 10 ''x'' @ [''a''])). parseStudyMetadata exHost p = None"
    by (simp add: ex_study_x)
  then have none: "loadDicomFromFolder exHost (replicate 10 ''x'' @ [''a'']) = None"
    using study_header_from_first_ten [of "replicate 10 ''x'' @ [''a'']" exHost]
    by blast
  from ex_load_some obtain st where st: "loadDicomFromFolder exHost exPaths = Some st"
    by auto
  have first: "parseStudyMetadata exHost (exPaths ! 0) \<noteq> None"
    using ex_study_a by (simp add: exPaths_def)
  from study_header_from_first_ten [of exPaths exHost st] st obtain i where
    i: "parseStudyMetadata exHost (exPaths ! i) = Some (studyMetadata.truncate st)"
       "\<forall>j<i. parseStudyMetadata exHost (exPaths ! j) = None"
    by blast
  from i(2) first have "i = 0"
    by (cases i) auto
  with i(1) have "parseStudyMetadata exHost (exPaths ! 0) = Some (studyMetadata.truncate st)"
    by simp
  with none st ex_study_a show ?thesis by simp
qed

subsection \<open>Key-object selections\<close>

text \<open>
  Claim C7. A key-object file whose list of image references is empty yields no
  key-object selection (\<open>parseKO\<close> returns \<^verbatim>\<open>null\<close>), and every key-object
  selection of a loaded study has a non-empty list of key images.
\<close>

theorem key_object_selections_nonempty:
  "(parseReferencedImages_ko ds = [] \<longrightarrow> parseKO ds filePath = None) \<and>
   (loadDicomFromFolder h filePaths = Some st \<longrightarrow>
      (\<forall>ko\<in>set (std_keyObjectSelections st). ko_keyImages ko \<noteq> []))"
proof (intro conjI impI)
  assume "parseReferencedImages_ko ds = []"
  then show "parseKO ds filePath = None"
    by (simp add: parseKO_def Let_def)
next
  assume "loadDicomFromFolder h filePaths = Some st"
  then have "std_keyObjectSelections st =
               keyObjectSelections (ingestLoop h filePaths emptyAccumulators)"
    by (rule load_Some) simp
  moreover have "\<forall>ko\<in>set (keyObjectSelections (ingestLoop h filePaths emptyAccumulators)).
                   ko_keyImages ko \<noteq> []"
    by (rule ingestLoop_kos) (simp add: emptyAccumulators_def)
  ultimately show "\<forall>ko\<in>set (std_keyObjectSelections st). ko_keyImages ko \<noteq> []"
    by simp
qed

theorem key_object_selections_nonempty_witness:
  "parseReferencedImages_ko exDeepKO = [] \<and> parseKO exDeepKO ''e'' = None \<and>
   loadDicomFromFolder exHost exPaths \<noteq> None \<and>
   map ko_keyImages (std_keyObjectSelections (the (loadDicomFromFolder exHost exPaths))) =
     [[''1.1'']]"
proof -
  have "parseReferencedImages_ko exDeepKO = []"
    by code_simp
  then show ?thesis
    using key_object_selections_nonempty [of exDeepKO "''e''" exHost exPaths
             "the (loadDicomFromFolder exHost exPaths)"]
      ex_load_some ex_load_kos
    by blast
qed

subsection \<open>Images and their series\<close>

text \<open>
  Claim C10. In a loaded study every image of a series carries the series instance
  UID of that series. When no image file of a series \<open>u\<close> yields series metadata,
  the study has no series \<open>u\<close> and none of its series holds an image of series \<open>u\<close>:
  the decoded images of \<open>u\<close> are dropped by the organise loop. The series-metadata
  reader returns \<^verbatim>\<open>null\<close> whenever the file lacks a series instance UID or a study
  instance UID.
\<close>

theorem images_belong_to_their_series:
  assumes "loadDicomFromFolder h filePaths = Some st"
  shows "(\<forall>s\<in>set (std_series st). \<forall>img\<in>set (ser_images s).
            img_seriesInstanceUID img = ser_seriesInstanceUID s) \<and>
     ((\<forall>p\<in>set filePaths. \<forall>img.
          parseDicomFile h p = Some (ImageResult img) \<and> img_seriesInstanceUID img = u
            \<longrightarrow> parseSeriesMetadata h p = None) \<longrightarrow>
      (\<forall>s\<in>set (std_series st). ser_seriesInstanceUID s \<noteq> u \<and>
          (\<forall>img\<in>set (ser_images s). img_seriesInstanceUID img \<noteq> u))) \<and>
     (\<forall>p n ds. readFile h p = Parsed n ds \<and>
          (\<not> truthy (dsString ds ''x0020000e'') \<or> \<not> truthy (dsString ds ''x0020000d''))
            \<longrightarrow> parseSeriesMetadata h p = None)"
proof (intro conjI impI allI)
  let ?acc = "ingestLoop h filePaths emptyAccumulators"
  let ?org = "organizeLoop (images ?acc) (seriesMap ?acc)"
  from assms have series: "std_series st = sortSeries h (sortImages h ?org)"
    by (rule load_Some) simp
  have "\<forall>(k, s)\<in>set (seriesMap ?acc). ser_seriesInstanceUID s = k \<and> ser_images s = []"
    by (rule ingestLoop_seriesMap) (simp add: emptyAccumulators_def)
  then have "\<forall>(k, s)\<in>set (seriesMap ?acc). ser_seriesInstanceUID s = k \<and>
               (\<forall>img\<in>set (ser_images s). img_seriesInstanceUID img = k)"
    by fastforce
  then have "\<forall>(k, s)\<in>set ?org. ser_seriesInstanceUID s = k \<and>
               (\<forall>img\<in>set (ser_images s). img_seriesInstanceUID img = k)"
    by (rule organizeLoop_belong)
  then have sorted_inv: "\<forall>(k, s)\<in>set (sortImages h ?org). ser_seriesInstanceUID s = k \<and>
               (\<forall>img\<in>set (ser_images s). img_seriesInstanceUID img = k)"
    by (rule sortImages_belong)
  then show belong: "\<forall>s\<in>set (std_series st). \<forall>img\<in>set (ser_images s).
            img_seriesInstanceUID img = ser_seriesInstanceUID s"
    unfolding series set_sortSeries by fastforce
  {
    assume hyp: "\<forall>p\<in>set filePaths. \<forall>img.
          parseDicomFile h p = Some (ImageResult img) \<and> img_seriesInstanceUID img = u
            \<longrightarrow> parseSeriesMetadata h p = None"
    have "u \<notin> fst ` set (seriesMap ?acc)"
      by (rule ingestLoop_no_key [OF _ hyp]) (simp add: emptyAccumulators_def)
    then have "u \<notin> set (map fst (sortImages h ?org))"
      by (simp add: map_fst_sortImages organizeLoop_keys)
    then have nokey: "u \<notin> fst ` set (sortImages h ?org)"
      by simp
    have "ser_seriesInstanceUID s \<noteq> u" if "s \<in> set (std_series st)" for s
    proof -
      from that obtain k where ks: "(k, s) \<in> set (sortImages h ?org)"
        unfolding series set_sortSeries by auto
      with sorted_inv have "ser_seriesInstanceUID s = k" by fastforce
      moreover from ks nokey have "k \<noteq> u" by force
      ultimately show ?thesis by simp
    qed
    with belong show "\<forall>s\<in>set (std_series st). ser_seriesInstanceUID s \<noteq> u \<and>
          (\<forall>img\<in>set (ser_images s). img_seriesInstanceUID img \<noteq> u)"
      by auto
  }
next
  fix p n ds
  assume "readFile h p = Parsed n ds \<and>
          (\<not> truthy (dsString ds ''x0020000e'') \<or> \<not> truthy (dsString ds ''x0020000d''))"
  then show "parseSeriesMetadata h p = None"
    by (auto simp add: parseSeriesMetadata_def Let_def)
qed

theorem images_belong_to_their_series_witness:
  "parseDicomFile exHost ''d'' = Some (ImageResult (imgOf ''1.4'' ''S3'' (Num 1) ''d'')) \<and>
   parseSeriesMetadata exHost ''d'' = None \<and>
   loadDicomFromFolder exHost exPaths \<noteq> None \<and>
   ''S3'' \<notin> set (map ser_seriesInstanceUID
                    (std_series (the (loadDicomFromFolder exHost exPaths)))) \<and>
   ''S3'' \<notin> set (concat (map (map img_seriesInstanceUID \<circ> ser_images)
                    (std_series (the (loadDicomFromFolder exHost exPaths)))))"
proof -
  have hyp: "\<forall>p\<in>set exPaths. \<forall>img.
          parseDicomFile exHost p = Some (ImageResult img) \<and> img_seriesInstanceUID img = ''S3''
            \<longrightarrow> parseSeriesMetadata exHost p = None"
    by (simp add: exPaths_def ex_files imgOf_def)
  from ex_load_some obtain st where st: "loadDicomFromFolder exHost exPaths = Some st"
    by auto
  from images_belong_to_their_series [OF st, of "''S3''"] hyp
  have "\<forall>s\<in>set (std_series st). ser_seriesInstanceUID s \<noteq> ''S3'' \<and>
          (\<forall>img\<in>set (ser_images s). img_seriesInstanceUID img \<noteq> ''S3'')"
    by blast
  then have "''S3'' \<notin> set (map ser_seriesInstanceUID (std_series st))"
    and "''S3'' \<notin> set (concat (map (map img_seriesInstanceUID \<circ> ser_images) (std_series st)))"
    by force+
  then show ?thesis
    using st ex_file_d ex_series_d by simp
qed

end
